theory Spec2Isabelle
  imports Main "HOL-Library.Word" "HOL-Library.List_Lexorder"
begin

section \<open>Data of the wrapper (epir.hpp)\<close>

text \<open>
  The C++ wrapper works on byte arrays: a \<open>Scalar\<close> is
  \<open>unsigned char bytes[EPIR_SCALAR_SIZE]\<close>, a public key is
  \<open>unsigned char bytes[EPIR_POINT_SIZE]\<close> and a \<open>Cipher\<close> is
  \<open>std::array<unsigned char, EPIR_CIPHER_SIZE>\<close>.
\<close>

type_synonym byte = "8 word"
type_synonym uint64 = "64 word"
type_synonym int32 = "32 word"

type_synonym Scalar = "byte list"
type_synonym Point = "byte list"
type_synonym Cipher = "byte list"

text \<open>
  The generator of random scalars a native routine draws from when it is passed
  \<open>r = NULL\<close>: the k-th scalar it would deliver.
\<close>

type_synonym rng = "nat \<Rightarrow> Scalar"

text \<open>
  What a call can end with other than a value. \<open>TableLoadError\<close> is
  \<open>throw "Failed to load mG.bin."\<close>, \<open>DecryptionFailure\<close> is
  \<open>throw "Failed to decrypt."\<close>; the wrapper has no other \<open>throw\<close>.
  \<open>InvalidParameter\<close> and \<open>MalformedInput\<close> are the two remaining error kinds
  the specification lists. \<open>BufferOverrun\<close> is not an exception: it stands for an
  access outside the storage of a vector, which C++ leaves undefined.
\<close>

datatype error =
  TableLoadError | DecryptionFailure | InvalidParameter | MalformedInput | BufferOverrun

text \<open>
  Modelled from the spec: the header epir.h, which declares \<open>epir_mG_t\<close>, is not
  among the sources. The wrapper reads the member \<open>point\<close> (an array of
  \<open>EPIR_POINT_SIZE\<close> bytes); the other member follows the specification's data model:
  an entry associates the encoding of \<open>i*G\<close> with the integer \<open>i\<close>.
\<close>

record epir_mG_t =
  point :: Point
  scalar :: nat

record DecryptionContext =
  mmax :: nat
  mG :: "epir_mG_t list"

section \<open>The native library behind the wrapper (epir.h)\<close>

text \<open>
  The routines and constants of epir.h that epir.hpp calls. Their code is not part of
  the wrapper, so the wrapper is modelled over an arbitrary value of this record; a
  routine that writes through a pointer is given by the bytes (or entries) it stores
  from the start of the buffer it is passed, next to its return value.
\<close>

record epir_h =
  EPIR_SCALAR_SIZE :: nat
  EPIR_POINT_SIZE :: nat
  EPIR_CIPHER_SIZE :: nat
  epir_pubkey_from_privkey :: "Scalar \<Rightarrow> Point"
  epir_ecelgamal_encrypt :: "Point \<Rightarrow> uint64 \<Rightarrow> Scalar option \<Rightarrow> rng \<Rightarrow> Cipher"
  epir_ecelgamal_encrypt_fast :: "Scalar \<Rightarrow> uint64 \<Rightarrow> Scalar option \<Rightarrow> rng \<Rightarrow> Cipher"
  epir_selector_ciphers_count :: "uint64 list \<Rightarrow> uint64"
  epir_selector_elements_count :: "uint64 list \<Rightarrow> uint64"
  epir_selector_create ::
    "Point \<Rightarrow> uint64 list \<Rightarrow> uint64 \<Rightarrow> byte list option \<Rightarrow> rng \<Rightarrow> byte list"
  epir_selector_create_fast ::
    "Scalar \<Rightarrow> uint64 list \<Rightarrow> uint64 \<Rightarrow> byte list option \<Rightarrow> rng \<Rightarrow> byte list"
  epir_mG_load :: "nat \<Rightarrow> string option \<Rightarrow> epir_mG_t list \<times> nat"
  epir_mG_generate_no_sort :: "nat \<Rightarrow> epir_mG_t list"
  epir_ecelgamal_decrypt :: "Scalar \<Rightarrow> byte list \<Rightarrow> epir_mG_t list \<Rightarrow> nat \<Rightarrow> int32"
  epir_reply_decrypt ::
    "byte list \<Rightarrow> nat \<Rightarrow> Scalar \<Rightarrow> byte \<Rightarrow> byte \<Rightarrow> epir_mG_t list \<Rightarrow> nat
      \<Rightarrow> byte list \<times> int32"

section \<open>Vectors written through their data pointer\<close>

text \<open>
  A vector keeps the size it was constructed with. A routine that is handed
  \<open>v.data()\<close> and stores \<open>out\<close> from there on overwrites a prefix of the
  vector; storing more than the vector holds runs past its end.
\<close>

definition vec_write :: "'a list \<Rightarrow> 'a list \<Rightarrow> error + 'a list" where
  "vec_write v out =
     (if length out \<le> length v then Inr (out @ drop (length out) v) else Inl BufferOverrun)"

text \<open>A value-initialised entry of \<open>std::vector<epir_mG_t> mG(mmax)\<close>.\<close>

definition zero_mG :: "epir_h \<Rightarrow> epir_mG_t" where
  "zero_mG lib = \<lparr>point = replicate (EPIR_POINT_SIZE lib) 0, scalar = 0\<rparr>"

section \<open>Encryptor, PrivateKey, PublicKey\<close>

definition ciphersCount :: "epir_h \<Rightarrow> uint64 list \<Rightarrow> uint64" where
  "ciphersCount lib indexCounts = epir_selector_ciphers_count lib indexCounts"

definition elementsCount :: "epir_h \<Rightarrow> uint64 list \<Rightarrow> uint64" where
  "elementsCount lib indexCounts = epir_selector_elements_count lib indexCounts"

definition PublicKey_of_PrivateKey :: "epir_h \<Rightarrow> Scalar \<Rightarrow> Point" where
  "PublicKey_of_PrivateKey lib privkey = epir_pubkey_from_privkey lib privkey"

definition PrivateKey_encrypt ::
  "epir_h \<Rightarrow> Scalar \<Rightarrow> uint64 \<Rightarrow> Scalar option \<Rightarrow> rng \<Rightarrow> Cipher" where
  "PrivateKey_encrypt lib privkey message r rnd =
     epir_ecelgamal_encrypt_fast lib privkey message r rnd"

definition PublicKey_encrypt ::
  "epir_h \<Rightarrow> Point \<Rightarrow> uint64 \<Rightarrow> Scalar option \<Rightarrow> rng \<Rightarrow> Cipher" where
  "PublicKey_encrypt lib pubkey message r rnd =
     epir_ecelgamal_encrypt lib pubkey message r rnd"

text \<open>
  \<open>createSelector\<close>: the vector is constructed with \<open>ciphersCount(indexCounts)\<close>
  zero bytes, the native routine stores the selector through \<open>selector.data()\<close>, and
  the vector is returned. Neither method has a \<open>throw\<close> or a test of its arguments.
\<close>

definition PrivateKey_createSelector ::
  "epir_h \<Rightarrow> Scalar \<Rightarrow> uint64 list \<Rightarrow> uint64 \<Rightarrow> byte list option \<Rightarrow> rng
    \<Rightarrow> error + byte list" where
  "PrivateKey_createSelector lib privkey indexCounts idx r rnd =
     (let selector = replicate (unat (ciphersCount lib indexCounts)) (0 :: byte)
      in vec_write selector (epir_selector_create_fast lib privkey indexCounts idx r rnd))"

definition PublicKey_createSelector ::
  "epir_h \<Rightarrow> Point \<Rightarrow> uint64 list \<Rightarrow> uint64 \<Rightarrow> byte list option \<Rightarrow> rng
    \<Rightarrow> error + byte list" where
  "PublicKey_createSelector lib pubkey indexCounts idx r rnd =
     (let selector = replicate (unat (ciphersCount lib indexCounts)) (0 :: byte)
      in vec_write selector (epir_selector_create lib pubkey indexCounts idx r rnd))"

section \<open>DecryptionContext\<close>

text \<open>
  The loading constructor: \<open>mG(mmax)\<close> holds \<open>mmax\<close> value-initialised entries,
  \<open>epir_mG_load\<close> stores the entries it read and returns their number, and the
  constructor throws unless that number is \<open>mmax\<close>. An empty path is passed as
  \<open>NULL\<close>.
\<close>

definition DecryptionContext_load ::
  "epir_h \<Rightarrow> string \<Rightarrow> nat \<Rightarrow> error + DecryptionContext" where
  "DecryptionContext_load lib path n =
     (let (entries, elemsRead) = epir_mG_load lib n (if path = [] then None else Some path)
      in case vec_write (replicate n (zero_mG lib)) entries of
           Inl e \<Rightarrow> Inl e
         | Inr tbl \<Rightarrow>
             if elemsRead \<noteq> n then Inl TableLoadError
             else Inr \<lparr>mmax = n, mG = tbl\<rparr>)"

text \<open>
  \<open>memcmp(a, b, n)\<close> on the first \<open>n\<close> bytes, compared as unsigned chars. The
  wrapper applies it to two \<open>point\<close> members, which hold \<open>EPIR_POINT_SIZE\<close>
  bytes each; for a buffer that ends before \<open>n\<close> bytes (which those never do) the
  model orders the shorter one first.
\<close>

fun memcmp :: "byte list \<Rightarrow> byte list \<Rightarrow> nat \<Rightarrow> int" where
  "memcmp a b 0 = 0"
| "memcmp [] [] (Suc n) = 0"
| "memcmp [] (y # ys) (Suc n) = -1"
| "memcmp (x # xs) [] (Suc n) = 1"
| "memcmp (x # xs) (y # ys) (Suc n) =
     (if x = y then memcmp xs ys n else if x < y then -1 else 1)"

text \<open>The comparator handed to \<open>std::sort\<close> by the generating constructor.\<close>

definition mG_less :: "epir_h \<Rightarrow> epir_mG_t \<Rightarrow> epir_mG_t \<Rightarrow> bool" where
  "mG_less lib a b \<longleftrightarrow> memcmp (point a) (point b) (EPIR_POINT_SIZE lib) < 0"

text \<open>
  \<open>std::sort(first, last, comp)\<close> is library code: it leaves a permutation of the
  range in which no element compares less than an earlier one. It is modelled by an
  insertion sort with that contract.
\<close>

fun insert_by :: "('a \<Rightarrow> 'a \<Rightarrow> bool) \<Rightarrow> 'a \<Rightarrow> 'a list \<Rightarrow> 'a list" where
  "insert_by lt x [] = [x]"
| "insert_by lt x (y # ys) =
     (if lt y x then y # insert_by lt x ys else x # y # ys)"

fun std_sort :: "('a \<Rightarrow> 'a \<Rightarrow> bool) \<Rightarrow> 'a list \<Rightarrow> 'a list" where
  "std_sort lt [] = []"
| "std_sort lt (x # xs) = insert_by lt x (std_sort lt xs)"

text \<open>
  The generating constructor: \<open>epir_mG_generate_no_sort\<close> fills the vector, then the
  vector is sorted by \<open>memcmp\<close> of the points. The progress callback only observes
  the generation and is left out. The constructor has no \<open>throw\<close>.
\<close>

definition DecryptionContext_generate :: "epir_h \<Rightarrow> nat \<Rightarrow> error + DecryptionContext" where
  "DecryptionContext_generate lib n =
     (case vec_write (replicate n (zero_mG lib)) (epir_mG_generate_no_sort lib n) of
        Inl e \<Rightarrow> Inl e
      | Inr tbl \<Rightarrow> Inr \<lparr>mmax = n, mG = std_sort (mG_less lib) tbl\<rparr>)"

text \<open>
  \<open>decryptCipher\<close> returns the \<open>int32_t\<close> of \<open>epir_ecelgamal_decrypt\<close> as it
  is: the method has no \<open>throw\<close>, so its result is always a value.
\<close>

definition decryptCipher ::
  "epir_h \<Rightarrow> DecryptionContext \<Rightarrow> Scalar \<Rightarrow> byte list \<Rightarrow> error + int32" where
  "decryptCipher lib ctx privkey cipher =
     Inr (epir_ecelgamal_decrypt lib privkey cipher (mG ctx) (mmax ctx))"

section \<open>Memory: decryptReply and its buffers\<close>

text \<open>
  \<open>decryptReply\<close> receives the reply by reference, copies it into a vector of its
  own and hands that copy to a routine that decrypts in place. To tell the copy from
  the caller's vector, byte vectors live in a store, each at its own address;
  \<open>brk\<close> is the next free address. The store also holds the object the methods are
  called on.
\<close>

record machine =
  vecs :: "nat \<Rightarrow> byte list option"
  brk :: nat
  dctx :: DecryptionContext

text \<open>\<open>std::vector<unsigned char> v(n)\<close>: \<open>n\<close> zero bytes at a fresh address.\<close>

definition new_vector :: "nat \<Rightarrow> machine \<Rightarrow> nat \<times> machine" where
  "new_vector n m =
     (brk m, m\<lparr>vecs := (vecs m)(brk m \<mapsto> replicate n 0), brk := Suc (brk m)\<rparr>)"

text \<open>
  \<open>memcpy(dst.data(), src.data(), n)\<close>; \<open>None\<close> when \<open>n\<close> bytes do not lie
  within both vectors.
\<close>

definition memcpy :: "nat \<Rightarrow> nat \<Rightarrow> nat \<Rightarrow> machine \<Rightarrow> machine option" where
  "memcpy dst src n m =
     (case vecs m dst of
        None \<Rightarrow> None
      | Some d \<Rightarrow>
          (case vecs m src of
             None \<Rightarrow> None
           | Some s \<Rightarrow>
               if n \<le> length d \<and> n \<le> length s
               then Some (m\<lparr>vecs := (vecs m)(dst \<mapsto> take n s @ drop n d)\<rparr>)
               else None))"

text \<open>A native routine stores \<open>out\<close> from \<open>v.data()\<close> on.\<close>

definition store_out :: "nat \<Rightarrow> byte list \<Rightarrow> machine \<Rightarrow> machine option" where
  "store_out v out m =
     (case vecs m v of
        None \<Rightarrow> None
      | Some d \<Rightarrow>
          (case vec_write d out of
             Inl e \<Rightarrow> None
           | Inr d' \<Rightarrow> Some (m\<lparr>vecs := (vecs m)(v \<mapsto> d')\<rparr>)))"

definition bytes_at :: "machine \<Rightarrow> nat \<Rightarrow> byte list" where
  "bytes_at m a = (case vecs m a of None \<Rightarrow> [] | Some b \<Rightarrow> b)"

text \<open>
  \<open>decryptReply\<close>, line by line; \<open>reply\<close> is the address of the caller's vector.
  The method returns the vector \<open>ret\<close> by value.
\<close>

definition decryptReply ::
  "epir_h \<Rightarrow> Scalar \<Rightarrow> nat \<Rightarrow> byte \<Rightarrow> byte \<Rightarrow> machine \<Rightarrow> (error + byte list) \<times> machine" where
  "decryptReply lib privkey reply dimension packing m =
     (case vecs m reply of
        None \<Rightarrow> (Inl BufferOverrun, m)
      | Some rbytes \<Rightarrow>
          (let (buf, m1) = new_vector (length rbytes) m
           in case memcpy buf reply (length rbytes) m1 of
                None \<Rightarrow> (Inl BufferOverrun, m1)
              | Some m2 \<Rightarrow>
                  (let (out, decryptedCount) =
                         epir_reply_decrypt lib (bytes_at m2 buf) (length rbytes) privkey
                           dimension packing (mG (dctx m2)) (mmax (dctx m2))
                   in case store_out buf out m2 of
                        None \<Rightarrow> (Inl BufferOverrun, m2)
                      | Some m3 \<Rightarrow>
                          if sint decryptedCount < 0 then (Inl DecryptionFailure, m3)
                          else
                            (let (ret, m4) = new_vector (nat (sint decryptedCount)) m3
                             in case memcpy ret buf (nat (sint decryptedCount)) m4 of
                                  None \<Rightarrow> (Inl BufferOverrun, m4)
                                | Some m5 \<Rightarrow> (Inr (bytes_at m5 ret), m5)))))"

text \<open>
  \<open>decryptCipher\<close> as a call on the object in the store: a \<open>const\<close> method that
  passes \<open>const\<close> pointers only, so the store it leaves is the store it found.
\<close>

definition decryptCipher_call ::
  "epir_h \<Rightarrow> Scalar \<Rightarrow> byte list \<Rightarrow> machine \<Rightarrow> (error + int32) \<times> machine" where
  "decryptCipher_call lib privkey cipher m = (decryptCipher lib (dctx m) privkey cipher, m)"

text \<open>
  What \<open>decryptReply\<close> returns, as a function of the reply's bytes and the context
  alone (see \<open>decryptReply_result\<close> below).
\<close>

definition reply_result ::
  "epir_h \<Rightarrow> Scalar \<Rightarrow> byte list \<Rightarrow> byte \<Rightarrow> byte \<Rightarrow> DecryptionContext \<Rightarrow> error + byte list" where
  "reply_result lib privkey rbytes dimension packing ctx =
     (let (out, decryptedCount) =
            epir_reply_decrypt lib rbytes (length rbytes) privkey dimension packing
              (mG ctx) (mmax ctx)
      in if length rbytes < length out then Inl BufferOverrun
         else if sint decryptedCount < 0 then Inl DecryptionFailure
         else if length rbytes < nat (sint decryptedCount) then Inl BufferOverrun
         else Inr (take (nat (sint decryptedCount)) (out @ drop (length out) rbytes)))"

section \<open>The native library, from the specification\<close>

text \<open>
  Modelled from the spec: the curve arithmetic (the specification's CurveEngine, an
  external collaborator) is not among the sources. It enters as a record of
  operations on encoded points and scalars: the generator \<open>G\<close>, the encoding of
  \<open>0*G\<close>, point addition and subtraction, scalar multiplication, the product of two
  scalars, and the scalar of an integer message.
\<close>

record CurveEngine =
  scalar_size :: nat
  point_size :: nat
  gen :: Point
  pt_zero :: Point
  pt_add :: "Point \<Rightarrow> Point \<Rightarrow> Point"
  pt_sub :: "Point \<Rightarrow> Point \<Rightarrow> Point"
  pt_mul :: "Scalar \<Rightarrow> Point \<Rightarrow> Point"
  sc_mul :: "Scalar \<Rightarrow> Scalar \<Rightarrow> Scalar"
  sc_of_uint64 :: "uint64 \<Rightarrow> Scalar"

text \<open>
  Modelled from the spec: \<open>m*G\<close> for an integer message \<open>m\<close>, the point a
  cipher masks and the point a table entry holds.
\<close>

definition msg_point :: "CurveEngine \<Rightarrow> uint64 \<Rightarrow> Point" where
  "msg_point E m = pt_mul E (sc_of_uint64 E m) (gen E)"

text \<open>
  Modelled from the spec: epir_pubkey_from_privkey is not among the sources.
  \<open>derivePublicKey\<close> computes \<open>scalar * G\<close>.
\<close>

definition derivePublicKey :: "CurveEngine \<Rightarrow> Scalar \<Rightarrow> Point" where
  "derivePublicKey E privkey = pt_mul E privkey (gen E)"

text \<open>
  Modelled from the spec: the randomness of one encryption is the scalar supplied, or
  a fresh random scalar generated internally when it is omitted.
\<close>

definition randomness :: "Scalar option \<Rightarrow> rng \<Rightarrow> Scalar" where
  "randomness r rnd = (case r of None \<Rightarrow> rnd 0 | Some s \<Rightarrow> s)"

text \<open>
  Modelled from the spec: epir_ecelgamal_encrypt is not among the sources. Public-key
  path: \<open>C1 = r*G\<close>, \<open>C2 = m*G + r*PublicKey\<close>; a cipher is its two points, one
  after the other.
\<close>

definition ecelgamal_encrypt ::
  "CurveEngine \<Rightarrow> Point \<Rightarrow> uint64 \<Rightarrow> Scalar option \<Rightarrow> rng \<Rightarrow> Cipher" where
  "ecelgamal_encrypt E pubkey m r rnd =
     (let s = randomness r rnd;
          C1 = pt_mul E s (gen E);
          C2 = pt_add E (msg_point E m) (pt_mul E s pubkey)
      in C1 @ C2)"

text \<open>
  Modelled from the spec: epir_ecelgamal_encrypt_fast is not among the sources.
  Private-key path: \<open>C1 = r*G\<close>, \<open>C2 = m*G + (r*privkey)*G\<close>, with \<open>r*privkey\<close>
  combined first.
\<close>

definition ecelgamal_encrypt_fast ::
  "CurveEngine \<Rightarrow> Scalar \<Rightarrow> uint64 \<Rightarrow> Scalar option \<Rightarrow> rng \<Rightarrow> Cipher" where
  "ecelgamal_encrypt_fast E privkey m r rnd =
     (let s = randomness r rnd;
          C1 = pt_mul E s (gen E);
          C2 = pt_add E (msg_point E m) (pt_mul E (sc_mul E s privkey) (gen E))
      in C1 @ C2)"

text \<open>
  Modelled from the spec: epir_mG_generate_no_sort is not among the sources. The
  table's points are computed by cumulative addition: \<open>0*G\<close> first, each further
  point is the previous one plus \<open>G\<close>; entry \<open>i\<close> pairs the \<open>i\<close>-th point with
  \<open>i\<close>.
\<close>

primrec cumulative_point :: "CurveEngine \<Rightarrow> nat \<Rightarrow> Point" where
  "cumulative_point E 0 = pt_zero E"
| "cumulative_point E (Suc i) = pt_add E (cumulative_point E i) (gen E)"

definition mG_generate_no_sort :: "CurveEngine \<Rightarrow> nat \<Rightarrow> epir_mG_t list" where
  "mG_generate_no_sort E n =
     map (\<lambda>i. \<lparr>point = cumulative_point E i, scalar = i\<rparr>) [0..<n]"

text \<open>
  Modelled from the spec: the table lookup is not among the sources. A binary search
  over the sorted table by the points' bytes; it returns the associated integer, or
  nothing.
\<close>

function bsearch :: "nat \<Rightarrow> epir_mG_t list \<Rightarrow> Point \<Rightarrow> nat \<Rightarrow> nat \<Rightarrow> nat option" where
  "bsearch sz tbl p lo hi =
     (if hi \<le> lo then None
      else if memcmp (point (tbl ! ((lo + hi) div 2))) p sz = 0
        then Some (scalar (tbl ! ((lo + hi) div 2)))
      else if memcmp (point (tbl ! ((lo + hi) div 2))) p sz < 0
        then bsearch sz tbl p (Suc ((lo + hi) div 2)) hi
      else bsearch sz tbl p lo ((lo + hi) div 2))"
  by pat_completeness auto
termination
  by (relation "measure (\<lambda>(sz, tbl, p, lo, hi). hi - lo)") auto

definition lookup :: "nat \<Rightarrow> epir_mG_t list \<Rightarrow> Point \<Rightarrow> nat option" where
  "lookup sz tbl p = bsearch sz tbl p 0 (length tbl)"

text \<open>
  Modelled from the spec: epir_ecelgamal_decrypt is not among the sources. The
  unmasked point is \<open>M = C2 - privkey*C1\<close>; it is looked up in the first \<open>mmax\<close>
  entries of the table. The routine returns an \<open>int32_t\<close>: the integer found, and
  for a miss (the specification's DecryptionFailure) the value -1, negative as the
  failure return of \<open>epir_reply_decrypt\<close> that \<open>decryptReply\<close> tests for.
\<close>

definition unmask :: "CurveEngine \<Rightarrow> Scalar \<Rightarrow> byte list \<Rightarrow> Point" where
  "unmask E privkey cipher =
     (let C1 = take (point_size E) cipher;
          C2 = take (point_size E) (drop (point_size E) cipher)
      in pt_sub E C2 (pt_mul E privkey C1))"

definition ecelgamal_decrypt ::
  "CurveEngine \<Rightarrow> Scalar \<Rightarrow> byte list \<Rightarrow> epir_mG_t list \<Rightarrow> nat \<Rightarrow> int32" where
  "ecelgamal_decrypt E privkey cipher tbl n =
     (case lookup (point_size E) (take n tbl) (unmask E privkey cipher) of
        None \<Rightarrow> - 1
      | Some i \<Rightarrow> of_nat i)"

text \<open>
  Modelled from the spec: epir_selector_ciphers_count and
  epir_selector_elements_count are not among the sources. A selector holds one cipher
  per position of every dimension, and addresses one element per combination of
  positions.
\<close>

definition selector_ciphers_count :: "uint64 list \<Rightarrow> uint64" where
  "selector_ciphers_count indexCounts = sum_list indexCounts"

definition selector_elements_count :: "uint64 list \<Rightarrow> uint64" where
  "selector_elements_count indexCounts = prod_list indexCounts"

text \<open>
  Modelled from the spec: epir_selector_create and epir_selector_create_fast are not
  among the sources. Steps 2 to 4 of the specification's createSelector: \<open>idx\<close> is
  decomposed into one digit per dimension, most significant first (\<open>[4, 4]\<close> and
  \<open>6\<close> give \<open>[1, 2]\<close>); every dimension contributes one cipher per position, of
  \<open>1\<close> at its digit and of \<open>0\<close> elsewhere; the ciphers are concatenated. The
  \<open>k\<close>-th cipher takes the \<open>k\<close>-th scalar of the randomness supplied, or the
  \<open>k\<close>-th fresh one.
\<close>

fun selector_digits :: "nat list \<Rightarrow> nat \<Rightarrow> nat list" where
  "selector_digits [] idx = []"
| "selector_digits (c # cs) idx = (idx div prod_list cs) mod c # selector_digits cs idx"

fun one_hot_messages :: "nat list \<Rightarrow> nat list \<Rightarrow> uint64 list" where
  "one_hot_messages (c # cs) (d # ds) =
     map (\<lambda>j. if j = d then 1 else 0) [0..<c] @ one_hot_messages cs ds"
| "one_hot_messages cs ds = []"

definition selector_messages :: "uint64 list \<Rightarrow> uint64 \<Rightarrow> uint64 list" where
  "selector_messages indexCounts idx =
     one_hot_messages (map unat indexCounts)
       (selector_digits (map unat indexCounts) (unat idx))"

definition selector_randomness :: "nat \<Rightarrow> byte list option \<Rightarrow> rng \<Rightarrow> nat \<Rightarrow> Scalar" where
  "selector_randomness ssz r rnd k =
     (case r of None \<Rightarrow> rnd k | Some bs \<Rightarrow> take ssz (drop (k * ssz) bs))"

definition selector_create ::
  "CurveEngine \<Rightarrow> Point \<Rightarrow> uint64 list \<Rightarrow> uint64 \<Rightarrow> byte list option \<Rightarrow> rng \<Rightarrow> byte list" where
  "selector_create E pubkey indexCounts idx r rnd =
     (let ms = selector_messages indexCounts idx
      in concat (map (\<lambda>k. ecelgamal_encrypt E pubkey (ms ! k)
                            (Some (selector_randomness (scalar_size E) r rnd k)) rnd)
                   [0..<length ms]))"

definition selector_create_fast ::
  "CurveEngine \<Rightarrow> Scalar \<Rightarrow> uint64 list \<Rightarrow> uint64 \<Rightarrow> byte list option \<Rightarrow> rng \<Rightarrow> byte list" where
  "selector_create_fast E privkey indexCounts idx r rnd =
     (let ms = selector_messages indexCounts idx
      in concat (map (\<lambda>k. ecelgamal_encrypt_fast E privkey (ms ! k)
                            (Some (selector_randomness (scalar_size E) r rnd k)) rnd)
                   [0..<length ms]))"

text \<open>
  Modelled from the spec: epir_mG_load and the layout of a record on disk are not
  among the sources. An artifact is the sequence of its fixed-size records; the files
  are a map from paths (\<open>None\<close> for the default path) to artifacts. Loading reads the
  records in file order, at most as many as requested, and returns how many it read.
\<close>

type_synonym files = "string option \<Rightarrow> epir_mG_t list option"

definition mG_load :: "files \<Rightarrow> nat \<Rightarrow> string option \<Rightarrow> epir_mG_t list \<times> nat" where
  "mG_load fs n path =
     (case fs path of
        None \<Rightarrow> ([], 0)
      | Some records \<Rightarrow> (take n records, length (take n records)))"

text \<open>
  Modelled from the spec: epir_reply_decrypt is not among the sources. The reply is
  partitioned into cipher records and every record is decrypted; one record that
  fails fails the whole reply (a negative return). A decrypted integer unpacks into
  \<open>packing\<close> bytes, low byte first; \<open>dimension\<close> is the number of such rounds, each
  working on the bytes the round before left. The routine leaves the bytes at the
  start of the buffer and returns their number.
\<close>

fun records_of :: "nat \<Rightarrow> nat \<Rightarrow> byte list \<Rightarrow> byte list list" where
  "records_of sz 0 bs = []"
| "records_of sz (Suc k) bs = take sz bs # records_of sz k (drop sz bs)"

definition unpack :: "nat \<Rightarrow> int32 \<Rightarrow> byte list" where
  "unpack packing v = map (\<lambda>p. ucast (drop_bit (8 * p) v)) [0..<packing]"

primrec reply_rounds ::
  "CurveEngine \<Rightarrow> Scalar \<Rightarrow> nat \<Rightarrow> epir_mG_t list \<Rightarrow> nat \<Rightarrow> nat \<Rightarrow> byte list
    \<Rightarrow> byte list option" where
  "reply_rounds E privkey packing tbl n 0 bs = Some bs"
| "reply_rounds E privkey packing tbl n (Suc d) bs =
     (let csz = 2 * point_size E;
          ms = map (\<lambda>c. ecelgamal_decrypt E privkey c tbl n)
                 (records_of csz (length bs div csz) bs)
      in if \<exists>v \<in> set ms. sint v < 0 then None
         else reply_rounds E privkey packing tbl n d (concat (map (unpack packing) ms)))"

definition reply_decrypt ::
  "CurveEngine \<Rightarrow> byte list \<Rightarrow> nat \<Rightarrow> Scalar \<Rightarrow> byte \<Rightarrow> byte \<Rightarrow> epir_mG_t list \<Rightarrow> nat
    \<Rightarrow> byte list \<times> int32" where
  "reply_decrypt E buf reply_size privkey dimension packing tbl n =
     (case reply_rounds E privkey (unat packing) tbl n (unat dimension) (take reply_size buf) of
        None \<Rightarrow> ([], - 1)
      | Some bs \<Rightarrow> (bs, of_nat (length bs)))"

text \<open>
  Modelled from the spec: the native library as a whole, over a curve engine and a set
  of files. The point and scalar sizes are the engine's, and a cipher is two points.
\<close>

definition epir_lib :: "CurveEngine \<Rightarrow> files \<Rightarrow> epir_h" where
  "epir_lib E fs =
     \<lparr>EPIR_SCALAR_SIZE = scalar_size E,
      EPIR_POINT_SIZE = point_size E,
      EPIR_CIPHER_SIZE = 2 * point_size E,
      epir_pubkey_from_privkey = derivePublicKey E,
      epir_ecelgamal_encrypt = ecelgamal_encrypt E,
      epir_ecelgamal_encrypt_fast = ecelgamal_encrypt_fast E,
      epir_selector_ciphers_count = selector_ciphers_count,
      epir_selector_elements_count = selector_elements_count,
      epir_selector_create = selector_create E,
      epir_selector_create_fast = selector_create_fast E,
      epir_mG_load = mG_load fs,
      epir_mG_generate_no_sort = mG_generate_no_sort E,
      epir_ecelgamal_decrypt = ecelgamal_decrypt E,
      epir_reply_decrypt = reply_decrypt E\<rparr>"

text \<open>
  What the round trip needs of the curve engine, for a table of \<open>n\<close> entries: every
  multiple of \<open>G\<close> is encoded in \<open>point_size\<close> bytes; \<open>0*G\<close> and the step
  \<open>i*G + G = (i+1)*G\<close>; \<open>r*(k*G) = k*(r*G) = (r*k)*G\<close>; subtracting what was
  added gives the point back; and the first \<open>n\<close> multiples of \<open>G\<close> are distinct
  (the order of \<open>G\<close> exceeds the table).
\<close>

definition curve_ok :: "CurveEngine \<Rightarrow> nat \<Rightarrow> bool" where
  "curve_ok E n \<longleftrightarrow>
     n \<le> 2 ^ 64 \<and>
     (\<forall>s. length (pt_mul E s (gen E)) = point_size E) \<and>
     pt_zero E = msg_point E 0 \<and>
     (\<forall>i. Suc i < n \<longrightarrow>
        pt_add E (msg_point E (of_nat i)) (gen E) = msg_point E (of_nat (Suc i))) \<and>
     (\<forall>m s. length (pt_add E (msg_point E m) (pt_mul E s (gen E))) = point_size E) \<and>
     (\<forall>r k. pt_mul E r (pt_mul E k (gen E)) = pt_mul E (sc_mul E r k) (gen E)) \<and>
     (\<forall>r k. pt_mul E k (pt_mul E r (gen E)) = pt_mul E (sc_mul E r k) (gen E)) \<and>
     (\<forall>m s. pt_sub E (pt_add E (msg_point E m) (pt_mul E s (gen E))) (pt_mul E s (gen E))
              = msg_point E m) \<and>
     inj_on (\<lambda>i. msg_point E (of_nat i)) {..<n}"

text \<open>
  A table that covers \<open>[0, n)\<close> for the engine: it holds exactly the entries that
  pair \<open>i*G\<close> with \<open>i\<close> for \<open>i < n\<close>, in strictly ascending order of the
  points' bytes, and the context records \<open>n\<close> as its \<open>mmax\<close>.
\<close>

definition table_ready :: "CurveEngine \<Rightarrow> nat \<Rightarrow> DecryptionContext \<Rightarrow> bool" where
  "table_ready E n ctx \<longleftrightarrow>
     mmax ctx = n \<and> length (mG ctx) = n \<and>
     sorted_wrt (\<lambda>a b. memcmp (point a) (point b) (point_size E) < 0) (mG ctx) \<and>
     set (mG ctx) = (\<lambda>i. \<lparr>point = msg_point E (of_nat i), scalar = i\<rparr>) ` {..<n}"

section \<open>A small curve engine to run the definitions on\<close>

text \<open>
  The integers modulo \<open>256 ^ w\<close> under addition, with a generator \<open>g\<close>, each
  encoded in \<open>w\<close> bytes, high byte first. The discrete logarithm is trivial there,
  but the operations obey the laws above, which is all the definitions use. With
  \<open>g = 255\<close> and one byte the multiples of the generator are 0, 255, 254, ...: the
  table is generated in descending order.
\<close>

primrec be_enc :: "nat \<Rightarrow> nat \<Rightarrow> byte list" where
  "be_enc 0 v = []"
| "be_enc (Suc w) v = be_enc w (v div 256) @ [of_nat (v mod 256)]"

definition be_dec :: "byte list \<Rightarrow> nat" where
  "be_dec bs = foldl (\<lambda>a b. a * 256 + unat b) 0 bs"

definition toy_curve :: "nat \<Rightarrow> nat \<Rightarrow> CurveEngine" where
  "toy_curve w g =
     \<lparr>scalar_size = w,
      point_size = w,
      gen = be_enc w g,
      pt_zero = be_enc w 0,
      pt_add = (\<lambda>a b. be_enc w (be_dec a + be_dec b)),
      pt_sub = (\<lambda>a b. be_enc w (be_dec a + (256 ^ w - be_dec b mod 256 ^ w))),
      pt_mul = (\<lambda>s a. be_enc w (be_dec s * be_dec a)),
      sc_mul = (\<lambda>s t. be_enc w (be_dec s * be_dec t)),
      sc_of_uint64 = (\<lambda>m. be_enc w (unat m))\<rparr>"

text \<open>
  Sample data on that engine. The table of four entries as the generating constructor
  leaves it, two artifacts (one in ascending order of the points, one not), the
  library over them, a generator of fresh scalars, and a store that holds one vector
  (a reply, at address 0) and the context.
\<close>

definition sample_table :: "epir_mG_t list" where
  "sample_table =
     [\<lparr>point = [0], scalar = 0\<rparr>, \<lparr>point = [253], scalar = 3\<rparr>,
      \<lparr>point = [254], scalar = 2\<rparr>, \<lparr>point = [255], scalar = 1\<rparr>]"

definition sample_ctx :: DecryptionContext where
  "sample_ctx = \<lparr>mmax = 4, mG = sample_table\<rparr>"

definition sample_files :: files where
  "sample_files path =
     (if path = Some ''mG.bin'' then Some sample_table
      else if path = Some ''unsorted.bin''
        then Some [\<lparr>point = [255], scalar = 1\<rparr>, \<lparr>point = [0], scalar = 0\<rparr>]
      else None)"

definition toy_lib :: epir_h where
  "toy_lib = epir_lib (toy_curve 1 255) sample_files"

definition sample_rnd :: rng where
  "sample_rnd k = [of_nat k + 9]"

definition sample_machine :: "byte list \<Rightarrow> machine" where
  "sample_machine reply =
     \<lparr>vecs = (\<lambda>a. if a = 0 then Some reply else None), brk = 1, dctx = sample_ctx\<rparr>"

text \<open>
  The same engine with eight-byte points and generator 1, whose group has
  \<open>2 ^ 64\<close> elements, and the context the generating constructor builds over it
  for a table of \<open>2 ^ 31 + 1\<close> entries.
\<close>

definition wide_lib :: epir_h where
  "wide_lib = epir_lib (toy_curve 8 1) sample_files"

definition wide_ctx :: DecryptionContext where
  "wide_ctx =
     \<lparr>mmax = 2 ^ 31 + 1,
      mG = std_sort (mG_less wide_lib) (mG_generate_no_sort (toy_curve 8 1) (2 ^ 31 + 1))\<rparr>"

section \<open>Vectors and the store\<close>

lemma vec_write_cases:
  "vec_write v out = Inr w \<Longrightarrow> length w = length v \<and> take (length out) w = out"
  by (auto simp: vec_write_def split: if_splits)

lemma vec_write_not_thrown:
  "vec_write v out = Inl e \<Longrightarrow> e = BufferOverrun"
  by (auto simp: vec_write_def split: if_splits)

lemma decryptReply_result:
  assumes "vecs m reply = Some rbytes" and "reply < brk m"
  shows "fst (decryptReply lib privkey reply dimension packing m) =
           reply_result lib privkey rbytes dimension packing (dctx m)"
  using assms
  by (auto simp: decryptReply_def reply_result_def new_vector_def memcpy_def store_out_def
        vec_write_def bytes_at_def Let_def split: prod.splits option.splits if_splits)

lemma decryptReply_frame:
  assumes "a < brk m"
  shows "vecs (snd (decryptReply lib privkey reply dimension packing m)) a = vecs m a"
    and "dctx (snd (decryptReply lib privkey reply dimension packing m)) = dctx m"
    and "brk m \<le> brk (snd (decryptReply lib privkey reply dimension packing m))"
  using assms
  by (auto simp: decryptReply_def new_vector_def memcpy_def store_out_def
        vec_write_def bytes_at_def Let_def split: prod.splits option.splits if_splits sum.splits)

section \<open>Evaluating the sample data\<close>

lemma be_enc_1: "be_enc (Suc 0) v = [of_nat (v mod 256)]"
  by simp

lemma be_dec_1: "be_dec [b] = unat b"
  by (simp add: be_dec_def)

lemmas toy_eval = toy_lib_def epir_lib_def toy_curve_def sample_ctx_def sample_table_def
  sample_rnd_def msg_point_def be_enc_1 be_dec_1 PrivateKey_encrypt_def
  ecelgamal_encrypt_fast_def randomness_def PublicKey_encrypt_def ecelgamal_encrypt_def
  PublicKey_of_PrivateKey_def derivePublicKey_def unmask_def decryptCipher_def
  ecelgamal_decrypt_def lookup_def Let_def

section \<open>The small curve engine obeys the laws\<close>

lemma length_be_enc: "length (be_enc w v) = w"
  by (induction w arbitrary: v) simp_all

lemma be_dec_snoc: "be_dec (bs @ [b]) = be_dec bs * 256 + unat b"
  by (simp add: be_dec_def)

lemma be_dec_enc: "be_dec (be_enc w v) = v mod 256 ^ w"
proof (induction w arbitrary: v)
  case 0
  show ?case by (simp add: be_dec_def)
next
  case (Suc w)
  have "unat (of_nat (v mod 256) :: byte) = v mod 256"
    by (simp add: unat_of_nat)
  then have "be_dec (be_enc (Suc w) v) = (v div 256 mod 256 ^ w) * 256 + v mod 256"
    by (simp add: be_dec_snoc Suc.IH)
  also have "\<dots> = v mod 256 ^ Suc w"
    by (simp add: mod_mult2_eq)
  finally show ?case .
qed

lemma be_enc_cong: "a mod 256 ^ w = b mod 256 ^ w \<Longrightarrow> be_enc w a = be_enc w b"
proof (induction w arbitrary: a b)
  case 0
  show ?case by simp
next
  case (Suc w)
  have split: "x mod 256 ^ Suc w = 256 * (x div 256 mod 256 ^ w) + x mod 256" for x :: nat
    by (simp add: mod_mult2_eq)
  from Suc.prems have eq: "256 * (a div 256 mod 256 ^ w) + a mod 256
      = 256 * (b div 256 mod 256 ^ w) + b mod 256"
    by (simp only: split)
  from eq have "(256 * (a div 256 mod 256 ^ w) + a mod 256) mod 256
      = (256 * (b div 256 mod 256 ^ w) + b mod 256) mod 256"
    by (rule arg_cong)
  then have lo: "a mod 256 = b mod 256"
    by simp
  with eq have hi: "a div 256 mod 256 ^ w = b div 256 mod 256 ^ w"
    by simp
  show ?case
    using Suc.IH [OF hi] lo by simp
qed

lemma be_enc_mod: "be_enc w (v mod 256 ^ w) = be_enc w v"
  by (rule be_enc_cong) simp

lemma be_enc_inj: "be_enc w a = be_enc w b \<Longrightarrow> a mod 256 ^ w = b mod 256 ^ w"
  by (metis be_dec_enc)

lemma toy_msg_point: "msg_point (toy_curve w g) m = be_enc w (unat m * g)"
proof -
  have "msg_point (toy_curve w g) m = be_enc w (be_dec (be_enc w (unat m)) * be_dec (be_enc w g))"
    by (simp add: msg_point_def toy_curve_def)
  also have "\<dots> = be_enc w (unat m * g)"
    unfolding be_dec_enc by (rule be_enc_cong) (simp add: mod_mult_eq)
  finally show ?thesis .
qed

lemma toy_mul_gen: "pt_mul (toy_curve w g) s (gen (toy_curve w g)) = be_enc w (be_dec s * g)"
proof -
  have "pt_mul (toy_curve w g) s (gen (toy_curve w g)) = be_enc w (be_dec s * be_dec (be_enc w g))"
    by (simp add: toy_curve_def)
  also have "\<dots> = be_enc w (be_dec s * g)"
    unfolding be_dec_enc by (rule be_enc_cong) (simp add: mod_mult_right_eq)
  finally show ?thesis .
qed

lemma toy_curve_ok:
  assumes n: "n \<le> 2 ^ 64" and inj: "inj_on (\<lambda>i. (i * g) mod 256 ^ w) {..<n}"
  shows "curve_ok (toy_curve w g) n"
proof -
  let ?E = "toy_curve w g"
  let ?N = "256 ^ w :: nat"
  have ops: "pt_add ?E a b = be_enc w (be_dec a + be_dec b)"
    "pt_sub ?E a b = be_enc w (be_dec a + (?N - be_dec b mod ?N))"
    "pt_mul ?E s a = be_enc w (be_dec s * be_dec a)"
    "sc_mul ?E s t = be_enc w (be_dec s * be_dec t)"
    "gen ?E = be_enc w g" "pt_zero ?E = be_enc w 0" "point_size ?E = w" for a b s t
    by (simp_all add: toy_curve_def)
  have len: "\<forall>s. length (pt_mul ?E s (gen ?E)) = point_size ?E"
    by (simp add: ops length_be_enc)
  have zero: "pt_zero ?E = msg_point ?E 0"
    by (simp add: toy_msg_point ops)
  have step: "\<forall>i. Suc i < n \<longrightarrow>
      pt_add ?E (msg_point ?E (of_nat i)) (gen ?E) = msg_point ?E (of_nat (Suc i))"
  proof (intro allI impI)
    fix i assume "Suc i < n"
    with n have u: "unat (of_nat i :: uint64) = i" "unat (of_nat (Suc i) :: uint64) = Suc i"
      by (simp_all add: unat_of_nat del: of_nat_Suc)
    have "(i * g mod ?N + g mod ?N) mod ?N = (Suc i * g) mod ?N"
      by (simp add: mod_add_eq add.commute)
    then show "pt_add ?E (msg_point ?E (of_nat i)) (gen ?E) = msg_point ?E (of_nat (Suc i))"
      unfolding toy_msg_point u ops be_dec_enc by (rule be_enc_cong)
  qed
  have len2: "\<forall>m s. length (pt_add ?E (msg_point ?E m) (pt_mul ?E s (gen ?E))) = point_size ?E"
    by (simp add: ops length_be_enc)
  have assoc: "\<forall>r k. pt_mul ?E r (pt_mul ?E k (gen ?E)) = pt_mul ?E (sc_mul ?E r k) (gen ?E)"
  proof (intro allI)
    fix r k
    have "(be_dec r * (be_dec k * (g mod ?N) mod ?N)) mod ?N
        = ((be_dec r * be_dec k) mod ?N * (g mod ?N)) mod ?N"
      by (simp add: mod_mult_left_eq mod_mult_right_eq mult.assoc)
    then show "pt_mul ?E r (pt_mul ?E k (gen ?E)) = pt_mul ?E (sc_mul ?E r k) (gen ?E)"
      unfolding ops be_dec_enc by (rule be_enc_cong)
  qed
  have comm: "\<forall>r k. pt_mul ?E k (pt_mul ?E r (gen ?E)) = pt_mul ?E (sc_mul ?E r k) (gen ?E)"
  proof (intro allI)
    fix r k
    have "(be_dec k * (be_dec r * (g mod ?N) mod ?N)) mod ?N
        = ((be_dec r * be_dec k) mod ?N * (g mod ?N)) mod ?N"
      by (simp add: mod_mult_left_eq mod_mult_right_eq mult.assoc mult.left_commute)
    then show "pt_mul ?E k (pt_mul ?E r (gen ?E)) = pt_mul ?E (sc_mul ?E r k) (gen ?E)"
      unfolding ops be_dec_enc by (rule be_enc_cong)
  qed
  have cancel: "\<forall>m s. pt_sub ?E (pt_add ?E (msg_point ?E m) (pt_mul ?E s (gen ?E)))
        (pt_mul ?E s (gen ?E)) = msg_point ?E m"
  proof (intro allI)
    fix m :: uint64 and s
    define x where "x = unat m * g"
    define y where "y = be_dec s * g"
    define d where "d = ?N - y mod ?N"
    have dsum: "y mod ?N + d = ?N"
      by (simp add: d_def)
    have "y + d = (y div ?N) * ?N + y mod ?N + d"
      by (simp only: div_mult_mod_eq)
    then have "y + d = (y div ?N) * ?N + (y mod ?N + d)"
      by (simp only: add.assoc)
    then have yd: "x + y + d = x + (y div ?N + 1) * ?N"
      by (simp only: dsum) simp
    have "((x + y) mod ?N + d) mod ?N = (x + y + d) mod ?N"
      by (rule mod_add_left_eq)
    also have "\<dots> = x mod ?N"
      by (simp only: yd mod_mult_self1)
    finally have key: "((x + y) mod ?N + d) mod ?N = x mod ?N" .
    have "pt_sub ?E (pt_add ?E (msg_point ?E m) (pt_mul ?E s (gen ?E))) (pt_mul ?E s (gen ?E))
        = be_enc w (be_dec (be_enc w (be_dec (be_enc w x) + be_dec (be_enc w y)))
            + (?N - be_dec (be_enc w y) mod ?N))"
      unfolding toy_msg_point toy_mul_gen ops(1,2) x_def y_def ..
    also have "\<dots> = be_enc w ((x + y) mod ?N + d)"
      by (simp add: be_dec_enc mod_add_eq d_def)
    also have "\<dots> = be_enc w x"
      using key by (rule be_enc_cong)
    finally show "pt_sub ?E (pt_add ?E (msg_point ?E m) (pt_mul ?E s (gen ?E)))
        (pt_mul ?E s (gen ?E)) = msg_point ?E m"
      by (simp add: toy_msg_point x_def)
  qed
  have distinct: "inj_on (\<lambda>i. msg_point ?E (of_nat i)) {..<n}"
  proof (rule inj_onI)
    fix i j assume i: "i \<in> {..<n}" and j: "j \<in> {..<n}"
      and eq: "msg_point ?E (of_nat i) = msg_point ?E (of_nat j)"
    from i j n have u: "unat (of_nat i :: uint64) = i" "unat (of_nat j :: uint64) = j"
      by (simp_all add: unat_of_nat)
    from eq have "(i * g) mod ?N = (j * g) mod ?N"
      unfolding toy_msg_point u by (rule be_enc_inj)
    with inj i j show "i = j"
      by (auto dest: inj_onD)
  qed
  show ?thesis
    unfolding curve_ok_def
    using n len zero step len2 assoc comm cancel distinct by blast
qed

lemma toy_1_255_ok: "curve_ok (toy_curve 1 255) 4"
proof (rule toy_curve_ok)
  show "(4 :: nat) \<le> 2 ^ 64" by simp
  have "{..<4 :: nat} = {0, 1, 2, 3}" by auto
  then show "inj_on (\<lambda>i. (i * 255) mod 256 ^ 1) {..<4 :: nat}"
    by (simp add: inj_on_def)
qed

lemma toy_8_1_ok: "curve_ok (toy_curve 8 1) (2 ^ 31 + 1)"
proof (rule toy_curve_ok)
  show "(2 ^ 31 + 1 :: nat) \<le> 2 ^ 64" by simp
  show "inj_on (\<lambda>i. (i * 1) mod 256 ^ 8) {..<2 ^ 31 + 1 :: nat}"
    by (rule inj_onI) simp
qed

lemma selector_eval:
  "unat (ciphersCount toy_lib [4, 4]) = 8"
  "EPIR_CIPHER_SIZE toy_lib = 2"
  "length (epir_selector_create toy_lib [249] [4, 4] 6 None sample_rnd) = 16"
  "length (epir_selector_create_fast toy_lib [7] [4, 4] 6 None sample_rnd) = 16"
  by (simp_all add: ciphersCount_def toy_lib_def epir_lib_def selector_ciphers_count_def
      toy_curve_def selector_create_def selector_create_fast_def selector_messages_def
      ecelgamal_encrypt_def ecelgamal_encrypt_fast_def Let_def length_be_enc length_concat
      comp_def sum_list_triv)

section \<open>memcmp and the order of the table\<close>

lemma memcmp_less: "memcmp a b n < 0 \<longleftrightarrow> take n a < take n b"
  by (induction a b n rule: memcmp.induct) auto

lemma memcmp_eq: "memcmp a b n = 0 \<longleftrightarrow> take n a = take n b"
  by (induction a b n rule: memcmp.induct) auto

lemma memcmp_greater: "0 < memcmp a b n \<longleftrightarrow> take n b < take n a"
  by (induction a b n rule: memcmp.induct) auto

lemma mG_less_key:
  "mG_less lib a b \<longleftrightarrow> take (EPIR_POINT_SIZE lib) (point a) < take (EPIR_POINT_SIZE lib) (point b)"
  by (simp add: mG_less_def memcmp_less)

lemma set_insert_by: "set (insert_by lt x xs) = insert x (set xs)"
  by (induction xs) auto

lemma set_std_sort: "set (std_sort lt xs) = set xs"
  by (induction xs) (simp_all add: set_insert_by)

lemma length_insert_by: "length (insert_by lt x xs) = Suc (length xs)"
  by (induction xs) simp_all

lemma length_std_sort: "length (std_sort lt xs) = length xs"
  by (induction xs) (simp_all add: length_insert_by)

lemma distinct_insert_by: "distinct (insert_by lt x xs) \<longleftrightarrow> x \<notin> set xs \<and> distinct xs"
  by (induction xs) (auto simp: set_insert_by)

lemma distinct_std_sort: "distinct (std_sort lt xs) \<longleftrightarrow> distinct xs"
  by (induction xs) (simp_all add: distinct_insert_by set_std_sort)

lemma map_key_insert_by:
  fixes f :: "'a \<Rightarrow> 'k :: linorder"
  shows "sorted (map f xs) \<Longrightarrow> sorted (map f (insert_by (\<lambda>a b. f a < f b) x xs))"
  by (induction xs) (auto simp: set_insert_by)

lemma sorted_key_std_sort:
  fixes f :: "'a \<Rightarrow> 'k :: linorder"
  shows "sorted (map f (std_sort (\<lambda>a b. f a < f b) xs))"
  by (induction xs) (simp_all add: map_key_insert_by)

lemma std_sort_mG_less:
  "sorted (map (\<lambda>e. take (EPIR_POINT_SIZE lib) (point e)) (std_sort (mG_less lib) tbl))"
proof -
  have "mG_less lib = (\<lambda>a b. take (EPIR_POINT_SIZE lib) (point a) < take (EPIR_POINT_SIZE lib) (point b))"
    by (intro ext) (rule mG_less_key)
  then show ?thesis
    by (simp only: sorted_key_std_sort)
qed

lemma sorted_adjacent:
  fixes ks :: "'k :: linorder list"
  assumes "sorted ks" and "Suc i < length ks"
  shows "ks ! i \<le> ks ! Suc i"
  using assms by (simp add: sorted_iff_nth_mono)

lemma strict_sorted_adjacent:
  fixes ks :: "'k :: linorder list"
  assumes "sorted ks" and "distinct ks" and "Suc i < length ks"
  shows "ks ! i < ks ! Suc i"
proof -
  have "ks ! i \<le> ks ! Suc i"
    using assms(1,3) by (rule sorted_adjacent)
  moreover have "ks ! i \<noteq> ks ! Suc i"
    using assms(2,3) by (simp add: nth_eq_iff_index_eq)
  ultimately show ?thesis by simp
qed

lemma generated_table_sorted:
  assumes gen: "DecryptionContext_generate lib n = Inr ctx"
    and filled: "vec_write (replicate n (zero_mG lib)) (epir_mG_generate_no_sort lib n) = Inr tbl"
  shows "mG ctx = std_sort (mG_less lib) tbl \<and> set (mG ctx) = set tbl \<and>
         length (mG ctx) = n \<and> mmax ctx = n \<and>
         (\<forall>i. Suc i < n \<longrightarrow>
            memcmp (point (mG ctx ! i)) (point (mG ctx ! Suc i)) (EPIR_POINT_SIZE lib) \<le> 0) \<and>
         (distinct (map (\<lambda>e. take (EPIR_POINT_SIZE lib) (point e)) tbl) \<longrightarrow>
            (\<forall>i. Suc i < n \<longrightarrow>
               memcmp (point (mG ctx ! i)) (point (mG ctx ! Suc i)) (EPIR_POINT_SIZE lib) < 0))"
proof -
  let ?key = "\<lambda>e. take (EPIR_POINT_SIZE lib) (point e)"
  from gen filled have tab: "mG ctx = std_sort (mG_less lib) tbl" and mx: "mmax ctx = n"
    by (auto simp: DecryptionContext_generate_def)
  from filled have "length tbl = n"
    by (auto dest: vec_write_cases)
  with tab have len: "length (mG ctx) = n"
    by (simp add: length_std_sort)
  have srt: "sorted (map ?key (mG ctx))"
    unfolding tab by (rule std_sort_mG_less)
  have weak: "memcmp (point (mG ctx ! i)) (point (mG ctx ! Suc i)) (EPIR_POINT_SIZE lib) \<le> 0"
    if "Suc i < n" for i
  proof -
    have "map ?key (mG ctx) ! i \<le> map ?key (mG ctx) ! Suc i"
      using srt that len by (intro sorted_adjacent) simp_all
    then have "\<not> ?key (mG ctx ! Suc i) < ?key (mG ctx ! i)"
      using that len by simp
    then show ?thesis
      by (simp add: memcmp_greater [symmetric])
  qed
  have strict: "memcmp (point (mG ctx ! i)) (point (mG ctx ! Suc i)) (EPIR_POINT_SIZE lib) < 0"
    if d: "distinct (map ?key tbl)" and i: "Suc i < n" for i
  proof -
    have dk: "distinct (map ?key (mG ctx))"
    proof -
      from d have "inj_on ?key (set tbl)" and "distinct tbl"
        by (simp_all add: distinct_map)
      then show ?thesis
        unfolding tab by (simp add: distinct_map set_std_sort distinct_std_sort)
    qed
    have "map ?key (mG ctx) ! i < map ?key (mG ctx) ! Suc i"
      using srt dk i len by (intro strict_sorted_adjacent) simp_all
    then show ?thesis
      using i len by (simp add: memcmp_less)
  qed
  show ?thesis
    using tab len mx weak strict by (simp add: set_std_sort)
qed

section \<open>The table lookup\<close>

lemma bsearch_empty: "hi \<le> lo \<Longrightarrow> bsearch sz tbl p lo hi = None"
  by (subst bsearch.simps) simp

lemma bsearch_hit:
  "lo < hi \<Longrightarrow> memcmp (point (tbl ! ((lo + hi) div 2))) p sz = 0 \<Longrightarrow>
     bsearch sz tbl p lo hi = Some (scalar (tbl ! ((lo + hi) div 2)))"
  by (subst bsearch.simps) simp

lemma bsearch_right:
  "lo < hi \<Longrightarrow> memcmp (point (tbl ! ((lo + hi) div 2))) p sz < 0 \<Longrightarrow>
     bsearch sz tbl p lo hi = bsearch sz tbl p (Suc ((lo + hi) div 2)) hi"
  by (subst bsearch.simps) simp

lemma bsearch_left:
  "lo < hi \<Longrightarrow> 0 < memcmp (point (tbl ! ((lo + hi) div 2))) p sz \<Longrightarrow>
     bsearch sz tbl p lo hi = bsearch sz tbl p lo ((lo + hi) div 2)"
  by (subst bsearch.simps) simp

lemma bsearch_sound:
  "bsearch sz tbl p lo hi = Some v \<Longrightarrow>
     \<exists>k. lo \<le> k \<and> k < hi \<and> take sz (point (tbl ! k)) = take sz p \<and> v = scalar (tbl ! k)"
proof (induction sz tbl p lo hi rule: bsearch.induct)
  case (1 sz tbl p lo hi)
  let ?mid = "(lo + hi) div 2"
  have range: "lo < hi"
  proof (rule ccontr)
    assume "\<not> lo < hi"
    then have "bsearch sz tbl p lo hi = None"
      by (intro bsearch_empty) simp
    with "1.prems" show False by simp
  qed
  then have mid: "lo \<le> ?mid" "?mid < hi"
    by simp_all
  consider (hit) "memcmp (point (tbl ! ?mid)) p sz = 0"
    | (right) "memcmp (point (tbl ! ?mid)) p sz < 0"
    | (left) "0 < memcmp (point (tbl ! ?mid)) p sz"
    by linarith
  then show ?case
  proof cases
    case hit
    from bsearch_hit [OF range hit] "1.prems" have "v = scalar (tbl ! ?mid)"
      by simp
    moreover from hit have "take sz (point (tbl ! ?mid)) = take sz p"
      by (simp only: memcmp_eq)
    ultimately show ?thesis
      using mid by blast
  next
    case right
    from bsearch_right [OF range right] "1.prems"
    have "bsearch sz tbl p (Suc ?mid) hi = Some v"
      by simp
    moreover have "\<not> hi \<le> lo" "memcmp (point (tbl ! ?mid)) p sz \<noteq> 0"
      using range right by simp_all
    ultimately obtain k where
      k: "Suc ?mid \<le> k" "k < hi" "take sz (point (tbl ! k)) = take sz p" "v = scalar (tbl ! k)"
      using "1.IH"(1) right by blast
    from k(1) mid(1) have "lo \<le> k" by linarith
    with k show ?thesis by blast
  next
    case left
    from bsearch_left [OF range left] "1.prems"
    have "bsearch sz tbl p lo ?mid = Some v"
      by simp
    moreover have "\<not> hi \<le> lo" "memcmp (point (tbl ! ?mid)) p sz \<noteq> 0"
      "\<not> memcmp (point (tbl ! ?mid)) p sz < 0"
      using range left by simp_all
    ultimately obtain k where
      k: "lo \<le> k" "k < ?mid" "take sz (point (tbl ! k)) = take sz p" "v = scalar (tbl ! k)"
      using "1.IH"(2) by blast
    from k(2) mid(2) have "k < hi" by linarith
    with k show ?thesis by blast
  qed
qed

lemma bsearch_finds:
  "sorted_wrt (<) (map (\<lambda>e. take sz (point e)) tbl) \<Longrightarrow> hi \<le> length tbl \<Longrightarrow>
   lo \<le> k \<Longrightarrow> k < hi \<Longrightarrow> take sz (point (tbl ! k)) = take sz p \<Longrightarrow>
   bsearch sz tbl p lo hi = Some (scalar (tbl ! k))"
proof (induction sz tbl p lo hi rule: bsearch.induct)
  case (1 sz tbl p lo hi)
  let ?mid = "(lo + hi) div 2"
  let ?key = "\<lambda>e. take sz (point e)"
  note srt = "1.prems"(1) and hi = "1.prems"(2) and lo = "1.prems"(3) and k = "1.prems"(4)
    and pt = "1.prems"(5)
  from lo k have range: "lo < hi" by linarith
  then have mid: "lo \<le> ?mid" "?mid < hi" by simp_all
  from mid hi k have inb: "?mid < length tbl" "k < length tbl" by linarith+
  have order: "?key (tbl ! i) < ?key (tbl ! j)" if "i < j" "j < length tbl" for i j
    using sorted_wrt_nth_less [OF srt, of i j] that by simp
  consider (hit) "memcmp (point (tbl ! ?mid)) p sz = 0"
    | (right) "memcmp (point (tbl ! ?mid)) p sz < 0"
    | (left) "0 < memcmp (point (tbl ! ?mid)) p sz"
    by linarith
  then show ?case
  proof cases
    case hit
    then have same: "?key (tbl ! ?mid) = ?key (tbl ! k)"
      using pt by (simp only: memcmp_eq)
    have "?mid = k"
    proof (rule ccontr)
      assume "?mid \<noteq> k"
      then consider "?mid < k" | "k < ?mid" by linarith
      then show False
      proof cases
        case 1
        from order [OF 1 inb(2)] same show False by simp
      next
        case 2
        from order [OF 2 inb(1)] same show False by simp
      qed
    qed
    with bsearch_hit [OF range hit] show ?thesis by simp
  next
    case right
    then have lt: "?key (tbl ! ?mid) < ?key (tbl ! k)"
      using pt by (simp only: memcmp_less)
    have "Suc ?mid \<le> k"
    proof (rule ccontr)
      assume "\<not> Suc ?mid \<le> k"
      then consider "?mid = k" | "k < ?mid" by linarith
      then show False
      proof cases
        case 1
        with lt show False by simp
      next
        case 2
        from order [OF 2 inb(1)] lt show False by simp
      qed
    qed
    moreover have "\<not> hi \<le> lo" "memcmp (point (tbl ! ?mid)) p sz \<noteq> 0"
      using range right by simp_all
    ultimately have "bsearch sz tbl p (Suc ?mid) hi = Some (scalar (tbl ! k))"
      using "1.IH"(1) right srt hi k pt by blast
    with bsearch_right [OF range right] show ?thesis by simp
  next
    case left
    then have gt: "?key (tbl ! k) < ?key (tbl ! ?mid)"
      using pt by (simp only: memcmp_greater)
    have km: "k < ?mid"
    proof (rule ccontr)
      assume "\<not> k < ?mid"
      then consider "?mid = k" | "?mid < k" by linarith
      then show False
      proof cases
        case 1
        with gt show False by simp
      next
        case 2
        from order [OF 2 inb(2)] gt show False by simp
      qed
    qed
    have "?mid \<le> length tbl" using inb(1) by simp
    moreover have "\<not> hi \<le> lo" "memcmp (point (tbl ! ?mid)) p sz \<noteq> 0"
      "\<not> memcmp (point (tbl ! ?mid)) p sz < 0"
      using range left by simp_all
    ultimately have "bsearch sz tbl p lo ?mid = Some (scalar (tbl ! k))"
      using "1.IH"(2) srt lo km pt by blast
    with bsearch_left [OF range left] show ?thesis by simp
  qed
qed

lemma lookup_absent:
  assumes "\<forall>e \<in> set tbl. take sz (point e) \<noteq> take sz p"
  shows "lookup sz tbl p = None"
proof (cases "bsearch sz tbl p 0 (length tbl)")
  case None
  then show ?thesis by (simp add: lookup_def)
next
  case (Some v)
  from bsearch_sound [OF Some] obtain k where
    k: "k < length tbl" "take sz (point (tbl ! k)) = take sz p"
    by blast
  from k(1) have "tbl ! k \<in> set tbl"
    by (rule nth_mem)
  with assms k(2) show ?thesis
    by blast
qed

lemma lookup_present:
  assumes srt: "sorted_wrt (\<lambda>a b. memcmp (point a) (point b) sz < 0) tbl"
    and mem: "e \<in> set tbl" and pt: "take sz (point e) = take sz p"
  shows "lookup sz tbl p = Some (scalar e)"
proof -
  from mem obtain k where k: "k < length tbl" "tbl ! k = e"
    by (auto simp: in_set_conv_nth)
  from srt have "sorted_wrt (\<lambda>a b. take sz (point a) < take sz (point b)) tbl"
    by (simp only: memcmp_less)
  then have "sorted_wrt (<) (map (\<lambda>e. take sz (point e)) tbl)"
    by (simp only: sorted_wrt_map)
  then have "bsearch sz tbl p 0 (length tbl) = Some (scalar (tbl ! k))"
    using k pt by (intro bsearch_finds) simp_all
  then show ?thesis
    by (simp add: lookup_def k)
qed

section \<open>The generated table and the round trip\<close>

lemma curve_ok_length: "curve_ok E n \<Longrightarrow> length (msg_point E m) = point_size E"
  by (simp add: curve_ok_def msg_point_def)

lemma cumulative_point_msg:
  assumes ok: "curve_ok E n"
  shows "i < n \<Longrightarrow> cumulative_point E i = msg_point E (of_nat i)"
proof (induction i)
  case 0
  from ok show ?case by (simp add: curve_ok_def)
next
  case (Suc i)
  then have "cumulative_point E i = msg_point E (of_nat i)" by simp
  moreover from ok Suc.prems
  have "pt_add E (msg_point E (of_nat i)) (gen E) = msg_point E (of_nat (Suc i))"
    unfolding curve_ok_def by blast
  ultimately show ?case by simp
qed

lemma generated_entries:
  assumes ok: "curve_ok E n"
  shows "mG_generate_no_sort E n
           = map (\<lambda>i. \<lparr>point = msg_point E (of_nat i), scalar = i\<rparr>) [0..<n]"
  unfolding mG_generate_no_sort_def
  by (rule map_cong) (simp_all add: cumulative_point_msg [OF ok])

lemma generated_keys_distinct:
  assumes ok: "curve_ok E n"
  shows "distinct (map (\<lambda>e. take (point_size E) (point e)) (mG_generate_no_sort E n))"
proof -
  have "map (\<lambda>e. take (point_size E) (point e)) (mG_generate_no_sort E n)
          = map (\<lambda>i. msg_point E (of_nat i)) [0..<n]"
    by (simp add: generated_entries [OF ok] curve_ok_length [OF ok] comp_def)
  moreover from ok have "inj_on (\<lambda>i. msg_point E (of_nat i)) {..<n}"
    by (simp add: curve_ok_def)
  then have "distinct (map (\<lambda>i. msg_point E (of_nat i)) [0..<n])"
    by (simp add: distinct_map lessThan_atLeast0)
  ultimately show ?thesis by simp
qed

lemma generate_ready:
  fixes E :: CurveEngine and fs :: files and n :: nat
  assumes ok: "curve_ok E n"
  defines "ctx \<equiv> \<lparr>mmax = n, mG = std_sort (mG_less (epir_lib E fs)) (mG_generate_no_sort E n)\<rparr>"
  shows "DecryptionContext_generate (epir_lib E fs) n = Inr ctx" and "table_ready E n ctx"
proof -
  let ?lib = "epir_lib E fs"
  let ?tbl = "mG_generate_no_sort E n"
  let ?key = "\<lambda>e. take (point_size E) (point e)"
  have sz: "EPIR_POINT_SIZE ?lib = point_size E"
    and gen: "epir_mG_generate_no_sort ?lib = mG_generate_no_sort E"
    by (simp_all add: epir_lib_def)
  have len: "length ?tbl = n"
    by (simp add: mG_generate_no_sort_def)
  then have filled: "vec_write (replicate n (zero_mG ?lib)) (epir_mG_generate_no_sort ?lib n) = Inr ?tbl"
    by (simp add: vec_write_def gen)
  show made: "DecryptionContext_generate ?lib n = Inr ctx"
    by (simp add: DecryptionContext_generate_def filled ctx_def)
  have srt: "sorted (map ?key (mG ctx))"
    using std_sort_mG_less [of ?lib ?tbl] by (simp add: ctx_def sz)
  have "distinct (mG ctx) \<and> inj_on ?key (set (mG ctx))"
    using generated_keys_distinct [OF ok]
    by (simp add: ctx_def distinct_map distinct_std_sort set_std_sort)
  then have "distinct (map ?key (mG ctx))"
    by (simp add: distinct_map)
  with srt have "sorted_wrt (<) (map ?key (mG ctx))"
    by (simp add: strict_sorted_iff)
  then have "sorted_wrt (\<lambda>a b. ?key a < ?key b) (mG ctx)"
    by (simp only: sorted_wrt_map)
  then have ordered: "sorted_wrt (\<lambda>a b. memcmp (point a) (point b) (point_size E) < 0) (mG ctx)"
    by (simp only: memcmp_less)
  have "set (mG ctx) = set ?tbl"
    by (simp add: ctx_def set_std_sort)
  also have "\<dots> = (\<lambda>i. \<lparr>point = msg_point E (of_nat i), scalar = i\<rparr>) ` {..<n}"
    by (simp add: generated_entries [OF ok] lessThan_atLeast0)
  finally have covers:
    "set (mG ctx) = (\<lambda>i. \<lparr>point = msg_point E (of_nat i), scalar = i\<rparr>) ` {..<n}" .
  show "table_ready E n ctx"
    unfolding table_ready_def using ordered covers
    by (simp add: ctx_def length_std_sort len)
qed

lemma unmask_encrypt:
  assumes ok: "curve_ok E n"
  shows "unmask E k (ecelgamal_encrypt E (derivePublicKey E k) m r rnd) = msg_point E m"
    and "unmask E k (ecelgamal_encrypt_fast E k m r rnd) = msg_point E m"
proof -
  define s where "s = randomness r rnd"
  define t where "t = sc_mul E s k"
  from ok have len1: "length (pt_mul E s (gen E)) = point_size E"
    and len2: "length (pt_add E (msg_point E m) (pt_mul E t (gen E))) = point_size E"
    and assoc: "pt_mul E s (pt_mul E k (gen E)) = pt_mul E t (gen E)"
    and comm: "pt_mul E k (pt_mul E s (gen E)) = pt_mul E t (gen E)"
    and cancel: "pt_sub E (pt_add E (msg_point E m) (pt_mul E t (gen E))) (pt_mul E t (gen E))
                   = msg_point E m"
    unfolding curve_ok_def t_def by blast+
  have fast: "ecelgamal_encrypt_fast E k m r rnd
                = pt_mul E s (gen E) @ pt_add E (msg_point E m) (pt_mul E t (gen E))"
    by (simp add: ecelgamal_encrypt_fast_def s_def t_def Let_def)
  have pub: "ecelgamal_encrypt E (derivePublicKey E k) m r rnd
                = pt_mul E s (gen E) @ pt_add E (msg_point E m) (pt_mul E t (gen E))"
    by (simp add: ecelgamal_encrypt_def derivePublicKey_def Let_def s_def [symmetric] assoc)
  have "unmask E k (pt_mul E s (gen E) @ pt_add E (msg_point E m) (pt_mul E t (gen E)))
          = msg_point E m"
    by (simp add: unmask_def len1 len2 comm cancel)
  then show "unmask E k (ecelgamal_encrypt E (derivePublicKey E k) m r rnd) = msg_point E m"
    and "unmask E k (ecelgamal_encrypt_fast E k m r rnd) = msg_point E m"
    by (simp_all only: fast pub)
qed

lemma decrypt_of_msg_point:
  assumes ok: "curve_ok E n" and m: "unat m < n" and ready: "table_ready E n ctx"
    and pt: "unmask E k c = msg_point E m"
  shows "decryptCipher (epir_lib E fs) ctx k c = Inr (of_nat (unat m))"
proof -
  let ?e = "\<lparr>point = msg_point E (of_nat (unat m)), scalar = unat m\<rparr>"
  from ready have tab: "mmax ctx = n" "length (mG ctx) = n"
    "sorted_wrt (\<lambda>a b. memcmp (point a) (point b) (point_size E) < 0) (mG ctx)"
    "set (mG ctx) = (\<lambda>i. \<lparr>point = msg_point E (of_nat i), scalar = i\<rparr>) ` {..<n}"
    by (simp_all add: table_ready_def)
  from m tab(4) have mem: "?e \<in> set (mG ctx)"
    by blast
  have "msg_point E (of_nat (unat m)) = msg_point E m"
    by simp
  then have "take (point_size E) (point ?e) = take (point_size E) (unmask E k c)"
    by (simp add: pt)
  from lookup_present [OF tab(3) mem this]
  have "lookup (point_size E) (mG ctx) (unmask E k c) = Some (unat m)"
    by simp
  then show ?thesis
    by (simp add: decryptCipher_def epir_lib_def ecelgamal_decrypt_def tab(1,2))
qed

lemma sint_of_nat_small:
  assumes "i < 2 ^ 31"
  shows "sint (of_nat i :: int32) = int i"
proof -
  have "sint (word_of_int (int i) :: int32) = signed_take_bit (LENGTH(32) - 1) (int i)"
    by (rule sint_sbintrunc')
  also have "\<dots> = int i"
    using assms by (intro signed_take_bit_int_eq_self) simp_all
  finally show ?thesis by simp
qed

lemma reply_decrypt_fails:
  assumes "0 < unat dimension"
    and "\<exists>c \<in> set (records_of (2 * point_size E) (length rbytes div (2 * point_size E)) rbytes).
           sint (ecelgamal_decrypt E privkey c tbl n) < 0"
  shows "reply_decrypt E rbytes (length rbytes) privkey dimension packing tbl n = ([], - 1)"
proof -
  from assms(1) obtain d where d: "unat dimension = Suc d"
    by (cases "unat dimension") simp_all
  from assms(2) have "reply_rounds E privkey (unat packing) tbl n (Suc d) rbytes = None"
    by (simp add: Let_def)
  then show ?thesis
    by (simp add: reply_decrypt_def d)
qed

section \<open>The claims\<close>

text \<open>
  C1. The claim is that the returned selector has \<open>ciphersCount(indexCounts) *
  cipherByteSize\<close> bytes. What the two methods return is the vector they constructed
  with \<open>ciphersCount(indexCounts)\<close> bytes, without the factor: whenever a selector
  is returned it has that many bytes, and the only other outcome is the native
  routine storing past the end of that vector. For \<open>indexCounts = [4, 4]\<close> and
  \<open>idx = 6\<close> on the sample library the vector has 8 bytes and the routine stores 16,
  two per cipher.
\<close>

theorem createSelector_vector_size:
  "(case PublicKey_createSelector lib pubkey indexCounts idx r rnd of
      Inl e \<Rightarrow> e = BufferOverrun
    | Inr sel \<Rightarrow> length sel = unat (ciphersCount lib indexCounts)) \<and>
   (case PrivateKey_createSelector lib privkey indexCounts idx r rnd of
      Inl e \<Rightarrow> e = BufferOverrun
    | Inr sel \<Rightarrow> length sel = unat (ciphersCount lib indexCounts)) \<and>
   unat (ciphersCount toy_lib [4, 4]) = 8 \<and> EPIR_CIPHER_SIZE toy_lib = 2 \<and>
   length (epir_selector_create toy_lib [249] [4, 4] 6 None sample_rnd) = 16 \<and>
   length (epir_selector_create_fast toy_lib [7] [4, 4] 6 None sample_rnd) = 16 \<and>
   PublicKey_createSelector toy_lib [249] [4, 4] 6 None sample_rnd = Inl BufferOverrun \<and>
   PrivateKey_createSelector toy_lib [7] [4, 4] 6 None sample_rnd = Inl BufferOverrun"
proof -
  have general: "(case PublicKey_createSelector lib pubkey indexCounts idx r rnd of
      Inl e \<Rightarrow> e = BufferOverrun
    | Inr sel \<Rightarrow> length sel = unat (ciphersCount lib indexCounts)) \<and>
   (case PrivateKey_createSelector lib privkey indexCounts idx r rnd of
      Inl e \<Rightarrow> e = BufferOverrun
    | Inr sel \<Rightarrow> length sel = unat (ciphersCount lib indexCounts))"
    by (auto simp: PublicKey_createSelector_def PrivateKey_createSelector_def Let_def
          split: sum.splits dest: vec_write_cases vec_write_not_thrown)
  have "PublicKey_createSelector toy_lib [249] [4, 4] 6 None sample_rnd = Inl BufferOverrun"
    and "PrivateKey_createSelector toy_lib [7] [4, 4] 6 None sample_rnd = Inl BufferOverrun"
    by (simp_all add: PublicKey_createSelector_def PrivateKey_createSelector_def vec_write_def
        selector_eval)
  with general selector_eval show ?thesis
    by blast
qed

text \<open>
  C2, as amended. For a curve engine that obeys the group laws and whose generator has
  at least \<open>mmax\<close> distinct multiples, for a table that covers \<open>[0, mmax)\<close> with
  \<open>mmax \<le> 2 ^ 31\<close>, for every message \<open>m < mmax\<close>, every private key and every
  randomness: decrypting the cipher of \<open>m\<close>, made by the public-key path with the
  derived public key or by the private-key path, returns exactly \<open>m\<close>. The table
  built by the generating constructor is such a table.
\<close>

theorem round_trip:
  assumes ok: "curve_ok E n" and small: "n \<le> 2 ^ 31" and m: "unat m < n"
    and ready: "table_ready E n ctx"
  shows "decryptCipher (epir_lib E fs) ctx privkey
           (PublicKey_encrypt (epir_lib E fs)
              (PublicKey_of_PrivateKey (epir_lib E fs) privkey) m r rnd)
           = Inr (of_nat (unat m)) \<and>
         decryptCipher (epir_lib E fs) ctx privkey
           (PrivateKey_encrypt (epir_lib E fs) privkey m r rnd)
           = Inr (of_nat (unat m)) \<and>
         sint (of_nat (unat m) :: int32) = int (unat m) \<and>
         (\<exists>c. DecryptionContext_generate (epir_lib E fs) n = Inr c \<and> table_ready E n c)"
proof -
  have pub: "PublicKey_encrypt (epir_lib E fs) (PublicKey_of_PrivateKey (epir_lib E fs) privkey)
               m r rnd = ecelgamal_encrypt E (derivePublicKey E privkey) m r rnd"
    by (simp add: PublicKey_encrypt_def PublicKey_of_PrivateKey_def epir_lib_def)
  have priv: "PrivateKey_encrypt (epir_lib E fs) privkey m r rnd
               = ecelgamal_encrypt_fast E privkey m r rnd"
    by (simp add: PrivateKey_encrypt_def epir_lib_def)
  from m small have "unat m < 2 ^ 31" by linarith
  then have "sint (of_nat (unat m) :: int32) = int (unat m)"
    by (rule sint_of_nat_small)
  then show ?thesis
    unfolding pub priv
    using decrypt_of_msg_point [OF ok m ready unmask_encrypt(1) [OF ok]]
      decrypt_of_msg_point [OF ok m ready unmask_encrypt(2) [OF ok]]
      generate_ready [OF ok, of fs]
    by blast
qed

theorem round_trip_witness:
  "decryptCipher toy_lib sample_ctx [7]
     (PublicKey_encrypt toy_lib (PublicKey_of_PrivateKey toy_lib [7]) 3 (Some [9]) sample_rnd)
     = Inr 3 \<and>
   decryptCipher toy_lib sample_ctx [7] (PrivateKey_encrypt toy_lib [7] 3 None sample_rnd)
     = Inr 3 \<and>
   sint (3 :: int32) = 3"
proof -
  have made: "DecryptionContext_generate toy_lib 4 = Inr sample_ctx"
    by code_simp
  with generate_ready [OF toy_1_255_ok, of sample_files]
  have ready: "table_ready (toy_curve 1 255) 4 sample_ctx"
    by (simp add: toy_lib_def)
  have small: "(4 :: nat) \<le> 2 ^ 31" and m: "unat (3 :: uint64) < 4"
    by simp_all
  show ?thesis
    using round_trip [OF toy_1_255_ok small m ready, of sample_files "[7]" "Some [9]" sample_rnd]
      round_trip [OF toy_1_255_ok small m ready, of sample_files "[7]" None sample_rnd]
    by (simp add: toy_lib_def)
qed

text \<open>
  C2 as stated fails for a table beyond the range of the \<open>int32_t\<close> that
  \<open>decryptCipher\<close> returns: with \<open>mmax = 2 ^ 31 + 1\<close> and \<open>m = 2 ^ 31\<close> the
  value returned reads as \<open>- 2 ^ 31\<close>.
\<close>

theorem round_trip_int32_counterexample:
  "curve_ok (toy_curve 8 1) (2 ^ 31 + 1) \<and>
   unat (2 ^ 31 :: uint64) < 2 ^ 31 + 1 \<and>
   DecryptionContext_generate wide_lib (2 ^ 31 + 1) = Inr wide_ctx \<and>
   table_ready (toy_curve 8 1) (2 ^ 31 + 1) wide_ctx \<and>
   decryptCipher wide_lib wide_ctx [7]
     (PublicKey_encrypt wide_lib (PublicKey_of_PrivateKey wide_lib [7]) (2 ^ 31) (Some [9])
        sample_rnd) = Inr (2 ^ 31) \<and>
   decryptCipher wide_lib wide_ctx [7]
     (PrivateKey_encrypt wide_lib [7] (2 ^ 31) (Some [9]) sample_rnd) = Inr (2 ^ 31) \<and>
   sint (2 ^ 31 :: int32) = - (2 ^ 31)"
proof -
  note ok = toy_8_1_ok
  have m: "unat (2 ^ 31 :: uint64) < 2 ^ 31 + 1"
    by simp
  have made: "DecryptionContext_generate wide_lib (2 ^ 31 + 1) = Inr wide_ctx"
    using generate_ready(1) [OF ok, of sample_files] by (simp only: wide_lib_def wide_ctx_def)
  have ready: "table_ready (toy_curve 8 1) (2 ^ 31 + 1) wide_ctx"
    using generate_ready(2) [OF ok, of sample_files] by (simp only: wide_lib_def wide_ctx_def)
  have v: "(of_nat (unat (2 ^ 31 :: uint64)) :: int32) = 2 ^ 31"
    by simp
  have pub: "decryptCipher wide_lib wide_ctx [7]
     (PublicKey_encrypt wide_lib (PublicKey_of_PrivateKey wide_lib [7]) (2 ^ 31) (Some [9])
        sample_rnd) = Inr (2 ^ 31)"
    using decrypt_of_msg_point [OF ok m ready unmask_encrypt(1) [OF ok], of sample_files "[7]"
        "Some [9]" sample_rnd]
    by (simp only: v wide_lib_def PublicKey_encrypt_def PublicKey_of_PrivateKey_def epir_lib_def
          epir_h.simps)
  have priv: "decryptCipher wide_lib wide_ctx [7]
     (PrivateKey_encrypt wide_lib [7] (2 ^ 31) (Some [9]) sample_rnd) = Inr (2 ^ 31)"
    using decrypt_of_msg_point [OF ok m ready unmask_encrypt(2) [OF ok], of sample_files "[7]"
        "Some [9]" sample_rnd]
    by (simp only: v wide_lib_def PrivateKey_encrypt_def epir_lib_def epir_h.simps)
  have neg: "sint (2 ^ 31 :: int32) = - (2 ^ 31)"
    by simp
  show ?thesis
    using ok m made ready pub priv neg by blast
qed

text \<open>
  C3, as amended. \<open>decryptCipher\<close> raises no error for any key, cipher and table:
  it returns the \<open>int32_t\<close> of the native routine unchanged. When the unmasked point
  is absent from the table, the value returned is that routine's report of the miss,
  -1 for the routine as modelled, which the caller has to test for.
\<close>

theorem decryptCipher_returns_status:
  "decryptCipher lib ctx privkey cipher \<noteq> Inl e \<and>
   decryptCipher lib ctx privkey cipher =
     Inr (epir_ecelgamal_decrypt lib privkey cipher (mG ctx) (mmax ctx)) \<and>
   ((\<forall>entry \<in> set (take (mmax ctx) (mG ctx)).
       take (point_size E) (point entry) \<noteq> take (point_size E) (unmask E privkey cipher)) \<longrightarrow>
      decryptCipher (epir_lib E fs) ctx privkey cipher = Inr (- 1) \<and> sint (- 1 :: int32) = - 1)"
  by (simp add: decryptCipher_def epir_lib_def ecelgamal_decrypt_def lookup_absent)

theorem decryptCipher_returns_status_witness:
  "decryptCipher toy_lib sample_ctx [7] [247, 184] = Inr (- 1)"
proof -
  have miss: "\<forall>entry \<in> set (take (mmax sample_ctx) (mG sample_ctx)).
      take (point_size (toy_curve 1 255)) (point entry)
        \<noteq> take (point_size (toy_curve 1 255)) (unmask (toy_curve 1 255) [7] [247, 184])"
    by code_simp
  have "decryptCipher (epir_lib (toy_curve 1 255) sample_files) sample_ctx [7] [247, 184]
          = Inr (- 1)"
    using decryptCipher_returns_status [of toy_lib sample_ctx "[7]" "[247, 184]" TableLoadError
        "toy_curve 1 255" sample_files] miss
    by blast
  then show ?thesis
    by (simp only: toy_lib_def)
qed

text \<open>
  C3 as stated fails: with the table of four entries, the cipher of the message 5
  unmasks to \<open>5*G\<close>, which is not in the table, and \<open>decryptCipher\<close> returns the
  value -1 instead of failing with \<open>DecryptionFailure\<close>.
\<close>

theorem decryptCipher_miss_counterexample:
  "DecryptionContext_generate toy_lib 4 = Inr sample_ctx \<and>
   PrivateKey_encrypt toy_lib [7] 5 None sample_rnd = [247, 188] \<and>
   unmask (toy_curve 1 255) [7] [247, 188] = msg_point (toy_curve 1 255) 5 \<and>
   msg_point (toy_curve 1 255) 5 \<notin> set (map point (mG sample_ctx)) \<and>
   decryptCipher toy_lib sample_ctx [7] [247, 188] = Inr (- 1) \<and>
   decryptCipher toy_lib sample_ctx [7] [247, 188] \<noteq> Inl DecryptionFailure"
proof -
  have tbl: "DecryptionContext_generate toy_lib 4 = Inr sample_ctx"
    by code_simp
  have enc: "PrivateKey_encrypt toy_lib [7] 5 None sample_rnd = [247, 188]"
    by (simp add: toy_eval)
  have pt: "unmask (toy_curve 1 255) [7] [247, 188] = msg_point (toy_curve 1 255) 5"
    by (simp add: toy_eval)
  have absent: "msg_point (toy_curve 1 255) 5 \<notin> set (map point (mG sample_ctx))"
    by (simp add: toy_eval)
  have res: "decryptCipher toy_lib sample_ctx [7] [247, 188] = Inr (- 1)"
    by (simp add: toy_eval bsearch.simps)
  show ?thesis
    using tbl enc pt absent res by simp
qed

text \<open>
  C4. Loading fails with the load error whenever the number of records the loader
  reports differs from the requested \<open>mmax\<close>; when it succeeds the context records
  that \<open>mmax\<close> and its table holds exactly \<open>mmax\<close> entries, which begin with the
  entries read. There is no outcome in between.
\<close>

theorem load_count_checked:
  assumes "epir_mG_load lib n (if path = [] then None else Some path) = (entries, elemsRead)"
    and "length entries \<le> n"
  shows "(elemsRead \<noteq> n \<longrightarrow> DecryptionContext_load lib path n = Inl TableLoadError) \<and>
         (elemsRead = n \<longrightarrow>
            (\<exists>ctx. DecryptionContext_load lib path n = Inr ctx \<and> mmax ctx = n \<and>
                   length (mG ctx) = n \<and> take (length entries) (mG ctx) = entries))"
  using assms by (simp add: DecryptionContext_load_def vec_write_def)

theorem load_count_checked_witness:
  "DecryptionContext_load toy_lib ''mG.bin'' 5 = Inl TableLoadError \<and>
   (\<exists>ctx. DecryptionContext_load toy_lib ''mG.bin'' 4 = Inr ctx \<and> mmax ctx = 4 \<and>
          length (mG ctx) = 4 \<and> take 4 (mG ctx) = sample_table)"
proof -
  have short: "epir_mG_load toy_lib 5 (if ''mG.bin'' = [] then None else Some ''mG.bin'')
                 = (sample_table, 4)"
    by code_simp
  have full: "epir_mG_load toy_lib 4 (if ''mG.bin'' = [] then None else Some ''mG.bin'')
                 = (sample_table, 4)"
    by code_simp
  have len: "length sample_table = 4"
    by (simp add: sample_table_def)
  show ?thesis
    using load_count_checked [OF short] load_count_checked [OF full] len by simp
qed

text \<open>
  C5, as amended. A table built by generation is the generated vector sorted once,
  after all points are accumulated: every pair of adjacent entries satisfies
  \<open>p_i \<le> p_{i+1}\<close> under \<open>memcmp\<close> of the points' bytes, and
  \<open>p_i < p_{i+1}\<close> when the generated points are pairwise distinct. A loaded table
  holds the records in the order the loader delivered them: the loading constructor
  neither sorts nor checks the order.
\<close>

theorem table_order:
  "(\<forall>ctx. DecryptionContext_generate lib n = Inr ctx \<longrightarrow>
      (\<exists>tbl. vec_write (replicate n (zero_mG lib)) (epir_mG_generate_no_sort lib n) = Inr tbl \<and>
         mG ctx = std_sort (mG_less lib) tbl \<and> set (mG ctx) = set tbl \<and>
         length (mG ctx) = n \<and>
         (\<forall>i. Suc i < n \<longrightarrow>
            memcmp (point (mG ctx ! i)) (point (mG ctx ! Suc i)) (EPIR_POINT_SIZE lib) \<le> 0) \<and>
         (distinct (map (\<lambda>e. take (EPIR_POINT_SIZE lib) (point e)) tbl) \<longrightarrow>
            (\<forall>i. Suc i < n \<longrightarrow>
               memcmp (point (mG ctx ! i)) (point (mG ctx ! Suc i)) (EPIR_POINT_SIZE lib) < 0)))) \<and>
   (\<forall>ctx entries elemsRead.
      DecryptionContext_load lib path n = Inr ctx \<and>
      epir_mG_load lib n (if path = [] then None else Some path) = (entries, elemsRead) \<longrightarrow>
        mG ctx = entries @ drop (length entries) (replicate n (zero_mG lib)))"
proof -
  have gen: "\<exists>tbl. vec_write (replicate n (zero_mG lib)) (epir_mG_generate_no_sort lib n) = Inr tbl \<and>
         mG ctx = std_sort (mG_less lib) tbl \<and> set (mG ctx) = set tbl \<and>
         length (mG ctx) = n \<and>
         (\<forall>i. Suc i < n \<longrightarrow>
            memcmp (point (mG ctx ! i)) (point (mG ctx ! Suc i)) (EPIR_POINT_SIZE lib) \<le> 0) \<and>
         (distinct (map (\<lambda>e. take (EPIR_POINT_SIZE lib) (point e)) tbl) \<longrightarrow>
            (\<forall>i. Suc i < n \<longrightarrow>
               memcmp (point (mG ctx ! i)) (point (mG ctx ! Suc i)) (EPIR_POINT_SIZE lib) < 0))"
    if made: "DecryptionContext_generate lib n = Inr ctx" for ctx
  proof -
    from made obtain tbl where
      filled: "vec_write (replicate n (zero_mG lib)) (epir_mG_generate_no_sort lib n) = Inr tbl"
      by (auto simp: DecryptionContext_generate_def split: sum.splits)
    from generated_table_sorted [OF made filled] filled show ?thesis
      by blast
  qed
  have load: "mG ctx = entries @ drop (length entries) (replicate n (zero_mG lib))"
    if "DecryptionContext_load lib path n = Inr ctx"
      and "epir_mG_load lib n (if path = [] then None else Some path) = (entries, elemsRead)"
    for ctx entries elemsRead
    using that
    by (auto simp: DecryptionContext_load_def vec_write_def split: if_splits)
  from gen load show ?thesis
    by blast
qed

theorem table_order_witness:
  "DecryptionContext_generate toy_lib 4 = Inr sample_ctx \<and>
   memcmp (point (mG sample_ctx ! 0)) (point (mG sample_ctx ! Suc 0)) (EPIR_POINT_SIZE toy_lib) < 0 \<and>
   memcmp (point (mG sample_ctx ! 1)) (point (mG sample_ctx ! Suc 1)) (EPIR_POINT_SIZE toy_lib) < 0 \<and>
   memcmp (point (mG sample_ctx ! 2)) (point (mG sample_ctx ! Suc 2)) (EPIR_POINT_SIZE toy_lib) < 0 \<and>
   DecryptionContext_load toy_lib ''mG.bin'' 4 = Inr sample_ctx"
proof -
  have made: "DecryptionContext_generate toy_lib 4 = Inr sample_ctx"
    by code_simp
  have loaded: "DecryptionContext_load toy_lib ''mG.bin'' 4 = Inr sample_ctx"
    by code_simp
  have filled: "vec_write (replicate 4 (zero_mG toy_lib)) (epir_mG_generate_no_sort toy_lib 4)
                  = Inr (mG_generate_no_sort (toy_curve 1 255) 4)"
    by (simp add: vec_write_def toy_lib_def epir_lib_def mG_generate_no_sort_def)
  have keys: "distinct (map (\<lambda>e. take (EPIR_POINT_SIZE toy_lib) (point e))
                          (mG_generate_no_sort (toy_curve 1 255) 4))"
    using generated_keys_distinct [OF toy_1_255_ok] by (simp add: toy_lib_def epir_lib_def)
  have step: "memcmp (point (mG sample_ctx ! i)) (point (mG sample_ctx ! Suc i))
                (EPIR_POINT_SIZE toy_lib) < 0" if "Suc i < 4" for i
    using table_order [of toy_lib 4 "''mG.bin''"] made filled keys that by auto
  have a: "memcmp (point (mG sample_ctx ! 0)) (point (mG sample_ctx ! Suc 0))
               (EPIR_POINT_SIZE toy_lib) < 0"
    by (rule step) simp
  have b: "memcmp (point (mG sample_ctx ! 1)) (point (mG sample_ctx ! Suc 1))
               (EPIR_POINT_SIZE toy_lib) < 0"
    by (rule step) simp
  have c: "memcmp (point (mG sample_ctx ! 2)) (point (mG sample_ctx ! Suc 2))
               (EPIR_POINT_SIZE toy_lib) < 0"
    by (rule step) simp
  from made a b c loaded show ?thesis
    by blast
qed

text \<open>
  C5 as stated fails for a loaded table: an artifact of two records in descending
  order loads successfully, and its adjacent entries are not in ascending order.
\<close>

theorem loaded_table_unsorted_counterexample:
  "DecryptionContext_load toy_lib ''unsorted.bin'' 2
     = Inr \<lparr>mmax = 2, mG = [\<lparr>point = [255], scalar = 1\<rparr>, \<lparr>point = [0], scalar = 0\<rparr>]\<rparr> \<and>
   \<not> memcmp [255] [0] (EPIR_POINT_SIZE toy_lib) < 0"
proof -
  have loaded: "DecryptionContext_load toy_lib ''unsorted.bin'' 2
     = Inr \<lparr>mmax = 2, mG = [\<lparr>point = [255], scalar = 1\<rparr>, \<lparr>point = [0], scalar = 0\<rparr>]\<rparr>"
    by code_simp
  have order: "\<not> memcmp [255] [0] (EPIR_POINT_SIZE toy_lib) < 0"
    by (simp add: toy_lib_def epir_lib_def toy_curve_def)
  from loaded order show ?thesis
    by (rule conjI)
qed

text \<open>
  C6, as amended. \<open>createSelector\<close> validates neither \<open>idx\<close> nor
  \<open>indexCounts\<close> and never fails with \<open>InvalidParameter\<close>: for every key,
  every \<open>indexCounts\<close> and every \<open>idx\<close>, in range or not, it calls the native
  routine, and what that routine stored is returned whenever it fits the vector.
\<close>

theorem createSelector_not_validated:
  "PublicKey_createSelector lib pubkey indexCounts idx r rnd \<noteq> Inl InvalidParameter \<and>
   PrivateKey_createSelector lib privkey indexCounts idx r rnd \<noteq> Inl InvalidParameter \<and>
   (length (epir_selector_create lib pubkey indexCounts idx r rnd)
      \<le> unat (ciphersCount lib indexCounts) \<longrightarrow>
    (\<exists>sel. PublicKey_createSelector lib pubkey indexCounts idx r rnd = Inr sel \<and>
       take (length (epir_selector_create lib pubkey indexCounts idx r rnd)) sel
         = epir_selector_create lib pubkey indexCounts idx r rnd)) \<and>
   (length (epir_selector_create_fast lib privkey indexCounts idx r rnd)
      \<le> unat (ciphersCount lib indexCounts) \<longrightarrow>
    (\<exists>sel. PrivateKey_createSelector lib privkey indexCounts idx r rnd = Inr sel \<and>
       take (length (epir_selector_create_fast lib privkey indexCounts idx r rnd)) sel
         = epir_selector_create_fast lib privkey indexCounts idx r rnd))"
  by (simp add: PublicKey_createSelector_def PrivateKey_createSelector_def vec_write_def)

theorem createSelector_not_validated_witness:
  "PublicKey_createSelector toy_lib [249] [0, 0] 3 None sample_rnd = Inr [] \<and>
   PrivateKey_createSelector toy_lib [7] [0, 0] 3 None sample_rnd = Inr []"
proof -
  have pub: "length (epir_selector_create toy_lib [249] [0, 0] 3 None sample_rnd)
               \<le> unat (ciphersCount toy_lib [0, 0])"
    by code_simp
  have priv: "length (epir_selector_create_fast toy_lib [7] [0, 0] 3 None sample_rnd)
               \<le> unat (ciphersCount toy_lib [0, 0])"
    by code_simp
  have n: "unat (ciphersCount toy_lib [0, 0]) = 0"
    by code_simp
  show ?thesis
    using createSelector_not_validated [of toy_lib "[249]" "[0, 0]" 3 None sample_rnd "[7]"]
      pub priv n
    by (auto simp: PublicKey_createSelector_def PrivateKey_createSelector_def vec_write_def)
qed

text \<open>
  C6 as stated fails: for \<open>indexCounts = [4, 4]\<close> and \<open>idx = 16\<close>, which is not
  below \<open>elementsCount\<close>, neither method ends with \<open>InvalidParameter\<close>; for
  \<open>indexCounts = [0]\<close> both return an (empty) selector.
\<close>

theorem createSelector_invalid_counterexample:
  "unat (elementsCount toy_lib [4, 4]) \<le> unat (16 :: uint64) \<and>
   PublicKey_createSelector toy_lib [249] [4, 4] 16 None sample_rnd \<noteq> Inl InvalidParameter \<and>
   PrivateKey_createSelector toy_lib [7] [4, 4] 16 None sample_rnd \<noteq> Inl InvalidParameter \<and>
   unat (elementsCount toy_lib [0]) \<le> unat (0 :: uint64) \<and>
   PublicKey_createSelector toy_lib [249] [0] 0 None sample_rnd = Inr [] \<and>
   PrivateKey_createSelector toy_lib [7] [0] 0 None sample_rnd = Inr []"
proof -
  have n16: "unat (elementsCount toy_lib [4, 4]) \<le> unat (16 :: uint64)"
    by (simp add: elementsCount_def toy_lib_def epir_lib_def selector_elements_count_def)
  have n0: "unat (elementsCount toy_lib [0]) \<le> unat (0 :: uint64)"
    by (simp add: elementsCount_def toy_lib_def epir_lib_def selector_elements_count_def)
  have pub16: "PublicKey_createSelector toy_lib [249] [4, 4] 16 None sample_rnd
                 \<noteq> Inl InvalidParameter"
    by (simp add: PublicKey_createSelector_def vec_write_def)
  have priv16: "PrivateKey_createSelector toy_lib [7] [4, 4] 16 None sample_rnd
                 \<noteq> Inl InvalidParameter"
    by (simp add: PrivateKey_createSelector_def vec_write_def)
  have pub0: "PublicKey_createSelector toy_lib [249] [0] 0 None sample_rnd = Inr []"
    by (simp add: PublicKey_createSelector_def vec_write_def ciphersCount_def toy_lib_def
          epir_lib_def selector_ciphers_count_def selector_create_def selector_messages_def)
  have priv0: "PrivateKey_createSelector toy_lib [7] [0] 0 None sample_rnd = Inr []"
    by (simp add: PrivateKey_createSelector_def vec_write_def ciphersCount_def toy_lib_def
          epir_lib_def selector_ciphers_count_def selector_create_fast_def selector_messages_def)
  show ?thesis
    using n16 n0 pub16 priv16 pub0 priv0 by simp
qed

text \<open>
  C7. For every message, private key and randomness, the private-key path produces
  the same cipher as the public-key path with the derived public key and the same
  randomness, namely \<open>C1 = r*G\<close> followed by \<open>C2 = m*G + (r*privkey)*G\<close>, on every
  curve engine where \<open>r*(k*G) = (r*k)*G\<close>.
\<close>

theorem encrypt_paths_agree:
  assumes assoc: "\<And>s k. pt_mul E s (pt_mul E k (gen E)) = pt_mul E (sc_mul E s k) (gen E)"
  shows "PrivateKey_encrypt (epir_lib E fs) privkey m r rnd
           = PublicKey_encrypt (epir_lib E fs)
               (PublicKey_of_PrivateKey (epir_lib E fs) privkey) m r rnd \<and>
         PrivateKey_encrypt (epir_lib E fs) privkey m r rnd
           = pt_mul E (randomness r rnd) (gen E)
             @ pt_add E (msg_point E m)
                 (pt_mul E (sc_mul E (randomness r rnd) privkey) (gen E))"
  by (simp add: PrivateKey_encrypt_def PublicKey_encrypt_def PublicKey_of_PrivateKey_def
        epir_lib_def ecelgamal_encrypt_fast_def ecelgamal_encrypt_def derivePublicKey_def
        Let_def assoc)

theorem encrypt_paths_agree_witness:
  "PrivateKey_encrypt toy_lib [7] 3 (Some [9]) sample_rnd
     = PublicKey_encrypt toy_lib (PublicKey_of_PrivateKey toy_lib [7]) 3 (Some [9]) sample_rnd \<and>
   PrivateKey_encrypt toy_lib [7] 3 (Some [9]) sample_rnd = [247, 190]"
proof -
  have assoc: "pt_mul (toy_curve 1 255) s (pt_mul (toy_curve 1 255) k (gen (toy_curve 1 255)))
      = pt_mul (toy_curve 1 255) (sc_mul (toy_curve 1 255) s k) (gen (toy_curve 1 255))" for s k
    using toy_1_255_ok unfolding curve_ok_def by blast
  have val: "PrivateKey_encrypt toy_lib [7] 3 (Some [9]) sample_rnd = [247, 190]"
    by (simp add: toy_eval)
  show ?thesis
    using encrypt_paths_agree [of "toy_curve 1 255" sample_files "[7]" 3 "Some [9]" sample_rnd,
        OF assoc] val
    by (simp add: toy_lib_def)
qed

text \<open>
  C8. When the native routine reports a record that failed to decrypt (a negative
  count), \<open>decryptReply\<close> fails with \<open>DecryptionFailure\<close> and returns no bytes;
  when it reports \<open>decryptedCount\<close> bytes, \<open>decryptReply\<close> returns exactly the
  first \<open>decryptedCount\<close> bytes of the decrypted buffer. With the routine as
  modelled, one cipher record of the reply that fails to decrypt makes
  \<open>decryptReply\<close> fail.
\<close>

theorem decryptReply_all_or_nothing:
  assumes "vecs m reply = Some rbytes" and "reply < brk m"
    and "epir_reply_decrypt lib rbytes (length rbytes) privkey dimension packing
           (mG (dctx m)) (mmax (dctx m)) = (out, decryptedCount)"
    and "length out \<le> length rbytes"
  shows "(sint decryptedCount < 0 \<longrightarrow>
            fst (decryptReply lib privkey reply dimension packing m) = Inl DecryptionFailure) \<and>
         (0 \<le> sint decryptedCount \<and> nat (sint decryptedCount) \<le> length rbytes \<longrightarrow>
            (\<exists>bs. fst (decryptReply lib privkey reply dimension packing m) = Inr bs \<and>
                  length bs = nat (sint decryptedCount) \<and>
                  bs = take (nat (sint decryptedCount)) (out @ drop (length out) rbytes))) \<and>
         (0 < unat dimension \<and>
          (\<exists>c \<in> set (records_of (2 * point_size E) (length rbytes div (2 * point_size E)) rbytes).
             sint (ecelgamal_decrypt E privkey c (mG (dctx m)) (mmax (dctx m))) < 0) \<longrightarrow>
            fst (decryptReply (epir_lib E fs) privkey reply dimension packing m)
              = Inl DecryptionFailure)"
proof -
  have modelled: "fst (decryptReply (epir_lib E fs) privkey reply dimension packing m)
              = Inl DecryptionFailure"
    if "0 < unat dimension"
      and "\<exists>c \<in> set (records_of (2 * point_size E) (length rbytes div (2 * point_size E)) rbytes).
             sint (ecelgamal_decrypt E privkey c (mG (dctx m)) (mmax (dctx m))) < 0"
  proof -
    have "epir_reply_decrypt (epir_lib E fs) rbytes (length rbytes) privkey dimension packing
            (mG (dctx m)) (mmax (dctx m)) = ([], - 1)"
      using reply_decrypt_fails [OF that] by (simp add: epir_lib_def)
    then show ?thesis
      using assms(1,2) by (simp add: decryptReply_result reply_result_def)
  qed
  from assms have "(sint decryptedCount < 0 \<longrightarrow>
            fst (decryptReply lib privkey reply dimension packing m) = Inl DecryptionFailure) \<and>
         (0 \<le> sint decryptedCount \<and> nat (sint decryptedCount) \<le> length rbytes \<longrightarrow>
            (\<exists>bs. fst (decryptReply lib privkey reply dimension packing m) = Inr bs \<and>
                  length bs = nat (sint decryptedCount) \<and>
                  bs = take (nat (sint decryptedCount)) (out @ drop (length out) rbytes)))"
    by (auto simp: decryptReply_result reply_result_def)
  with modelled show ?thesis
    by blast
qed

theorem decryptReply_all_or_nothing_witness:
  "fst (decryptReply toy_lib [7] 0 1 1 (sample_machine [247, 190, 246, 185])) = Inr [3, 1] \<and>
   fst (decryptReply toy_lib [7] 0 1 1 (sample_machine [247, 190, 246, 181]))
     = Inl DecryptionFailure"
proof -
  have v: "vecs (sample_machine bs) 0 = Some bs" "0 < brk (sample_machine bs)" for bs
    by (simp_all add: sample_machine_def)
  have good: "epir_reply_decrypt toy_lib [247, 190, 246, 185] (length [247, 190, 246, 185 :: byte])
                [7] 1 1 (mG (dctx (sample_machine [247, 190, 246, 185])))
                (mmax (dctx (sample_machine [247, 190, 246, 185]))) = ([3, 1], 2)"
    by code_simp
  have bad: "epir_reply_decrypt toy_lib [247, 190, 246, 181] (length [247, 190, 246, 181 :: byte])
                [7] 1 1 (mG (dctx (sample_machine [247, 190, 246, 181])))
                (mmax (dctx (sample_machine [247, 190, 246, 181]))) = ([], - 1)"
    by code_simp
  show ?thesis
    using decryptReply_all_or_nothing [OF v good] decryptReply_all_or_nothing [OF v bad]
    by simp
qed

text \<open>
  C9. Decryption is deterministic. The result of \<open>decryptCipher\<close> is a function of
  the key, the cipher and the context; two calls of \<open>decryptReply\<close> on the same
  reply bytes with the same parameters and context return the same bytes, in any two
  stores, and in particular when the second call follows the first.
\<close>

theorem decrypt_deterministic:
  "fst (decryptCipher_call lib privkey cipher m1) = decryptCipher lib (dctx m1) privkey cipher \<and>
   (dctx m1 = dctx m2 \<longrightarrow>
      fst (decryptCipher_call lib privkey cipher m1) =
      fst (decryptCipher_call lib privkey cipher m2)) \<and>
   (vecs m1 r1 = Some rbytes \<and> r1 < brk m1 \<and> vecs m2 r2 = Some rbytes \<and> r2 < brk m2 \<and>
    dctx m1 = dctx m2 \<longrightarrow>
      fst (decryptReply lib privkey r1 dimension packing m1) =
      fst (decryptReply lib privkey r2 dimension packing m2)) \<and>
   (r1 < brk m1 \<longrightarrow>
      fst (decryptReply lib privkey r1 dimension packing
             (snd (decryptReply lib privkey r1 dimension packing m1))) =
      fst (decryptReply lib privkey r1 dimension packing m1))"
proof -
  have two: "fst (decryptReply lib privkey r1 dimension packing m1) =
      fst (decryptReply lib privkey r2 dimension packing m2)"
    if "vecs m1 r1 = Some rbytes" "r1 < brk m1" "vecs m2 r2 = Some rbytes" "r2 < brk m2"
      "dctx m1 = dctx m2"
    using that by (simp add: decryptReply_result)
  have again: "fst (decryptReply lib privkey r1 dimension packing
             (snd (decryptReply lib privkey r1 dimension packing m1))) =
      fst (decryptReply lib privkey r1 dimension packing m1)" if lt: "r1 < brk m1"
  proof (cases "vecs m1 r1")
    case None
    then show ?thesis by (simp add: decryptReply_def)
  next
    case (Some rb)
    let ?m' = "snd (decryptReply lib privkey r1 dimension packing m1)"
    have "vecs ?m' r1 = Some rb" using decryptReply_frame(1)[OF lt] Some by simp
    moreover have "r1 < brk ?m'" using decryptReply_frame(3)[OF lt] lt by (rule_tac less_le_trans)
    moreover have "dctx ?m' = dctx m1" using decryptReply_frame(2)[OF lt] .
    ultimately show ?thesis using Some lt by (simp add: decryptReply_result)
  qed
  show ?thesis using two again by (simp add: decryptCipher_call_def)
qed

theorem decrypt_deterministic_witness:
  "fst (decryptReply toy_lib [7] 0 1 1
          (snd (decryptReply toy_lib [7] 0 1 1 (sample_machine [247, 190, 246, 185]))))
     = fst (decryptReply toy_lib [7] 0 1 1 (sample_machine [247, 190, 246, 185])) \<and>
   fst (decryptCipher_call toy_lib [7] [247, 190]
          (snd (decryptCipher_call toy_lib [7] [247, 190] (sample_machine []))))
     = fst (decryptCipher_call toy_lib [7] [247, 190] (sample_machine []))"
proof -
  have lt: "0 < brk (sample_machine [247, 190, 246, 185])"
    by (simp add: sample_machine_def)
  have same: "dctx (snd (decryptCipher_call toy_lib [7] [247, 190] (sample_machine [])))
                = dctx (sample_machine [])"
    by (simp add: decryptCipher_call_def)
  have reply: "fst (decryptReply toy_lib [7] 0 1 1
          (snd (decryptReply toy_lib [7] 0 1 1 (sample_machine [247, 190, 246, 185]))))
     = fst (decryptReply toy_lib [7] 0 1 1 (sample_machine [247, 190, 246, 185]))"
    using decrypt_deterministic [of toy_lib "[7]" "[]" "sample_machine [247, 190, 246, 185]"
        "sample_machine [247, 190, 246, 185]" 0 "[]" 0 1 1] lt
    by blast
  have cipher: "fst (decryptCipher_call toy_lib [7] [247, 190]
          (snd (decryptCipher_call toy_lib [7] [247, 190] (sample_machine []))))
     = fst (decryptCipher_call toy_lib [7] [247, 190] (sample_machine []))"
    using decrypt_deterministic [of toy_lib "[7]" "[247, 190]"
        "snd (decryptCipher_call toy_lib [7] [247, 190] (sample_machine []))"
        "sample_machine []" 0 "[]" 0 1 1] same
    by blast
  show ?thesis
    using reply cipher by (rule conjI)
qed

text \<open>
  C10. Neither call changes what the caller can observe: \<open>decryptCipher\<close> leaves
  the store as it is; \<open>decryptReply\<close> leaves the context (the table's entries and
  \<open>mmax\<close>), the caller's reply vector and every other vector that existed before
  the call unchanged, since it decrypts in a copy.
\<close>

theorem decrypt_leaves_state:
  "snd (decryptCipher_call lib privkey cipher m) = m \<and>
   dctx (snd (decryptReply lib privkey reply dimension packing m)) = dctx m \<and>
   (reply < brk m \<longrightarrow>
      vecs (snd (decryptReply lib privkey reply dimension packing m)) reply = vecs m reply) \<and>
   (\<forall>a. a < brk m \<longrightarrow>
      vecs (snd (decryptReply lib privkey reply dimension packing m)) a = vecs m a)"
proof -
  have "dctx (snd (decryptReply lib privkey reply dimension packing m)) = dctx m"
    by (auto simp: decryptReply_def new_vector_def memcpy_def store_out_def
        vec_write_def bytes_at_def Let_def split: prod.splits option.splits if_splits sum.splits)
  then show ?thesis
    by (simp add: decryptCipher_call_def decryptReply_frame(1))
qed

theorem decrypt_leaves_state_witness:
  "vecs (snd (decryptReply toy_lib [7] 0 1 1 (sample_machine [247, 190, 246, 185]))) 0
     = Some [247, 190, 246, 185] \<and>
   dctx (snd (decryptReply toy_lib [7] 0 1 1 (sample_machine [247, 190, 246, 185])))
     = sample_ctx"
proof -
  have lt: "0 < brk (sample_machine [247, 190, 246, 185])"
    by (simp add: sample_machine_def)
  show ?thesis
    using decrypt_leaves_state [of toy_lib "[7]" "[]" "sample_machine [247, 190, 246, 185]" 0 1 1] lt
    by (simp add: sample_machine_def)
qed

end
